theory Spec2Isabelle
  imports Main "HOL-Library.AList"
begin

section \<open>Data model of typescriptServiceClient.ts\<close>

text \<open>
  The client is single-threaded: every handler runs to completion before the next one
  starts. Each method of the source is a function from the state before the call to the
  state after it. What a method does to the outside world (settling a promise, writing to
  the worker, notifying the host, tracing) is appended, in order, to the \<open>effects\<close> log
  of the state.

  JavaScript numbers that hold sequence numbers, counters and identifiers are natural
  numbers here; time stamps and the restart counter are integers. (A JavaScript number is
  exact on integers below \<open>2^53\<close> only; the model does not cover a longer run.)
  Request arguments and message bodies are opaque to the client and are kept as strings.
\<close>

type_synonym payload = string
type_synonym promise_id = nat

text \<open>\<open>Proto.Message\<close>, \<open>Proto.Request\<close>, and the fields the dispatcher reads from an
  incoming \<open>Proto.Response\<close> or \<open>Proto.Event\<close> after its cast. Of a body the client
  reads two fields only, those of a \<open>Proto.TelemetryEventBody\<close>; \<open>None\<close> is a field that
  is \<open>undefined\<close>.\<close>

record Body =
  telemetryEventName :: string
  payload :: "payload option"

record Message =
  seq :: nat
  type :: string

record Request = Message +
  command :: string
  arguments :: payload

record Incoming = Message +
  request_seq :: nat
  success :: bool
  event :: string
  body :: "Body option"

text \<open>The value a promise is rejected with, or that is thrown: \<open>new Error(msg)\<close>, the
  \<open>TypeError\<close> of a property read on \<open>undefined\<close>, or the response object itself
  (\<open>p.e(response)\<close>).\<close>

datatype reason = Error string | TypeError string | Failure Incoming

text \<open>\<open>interface CallbackItem\<close>: \<open>c\<close> and \<open>e\<close> are the \<open>resolve\<close> and \<open>reject\<close> functions
  of the promise created in \<open>execute\<close>; each is identified by the promise it settles.\<close>

record CallbackItem =
  c :: promise_id
  e :: promise_id
  start :: int

datatype effect =
    Resolve promise_id Incoming
  | Reject promise_id reason
  | TraceRequest Request bool nat
  | TraceResponse Incoming int
  | TraceEvent Incoming
  | LogTrace string
  | StdinWrite Request
  | WriteFileSync string
  | StartService bool
  | ShowErrorMessage string
  | ShowWarningMessage string
  | LogTelemetry string
  | HostEvent string Incoming
  | OnCancellationRequested nat nat
  | OnReadyResolve
  | OnTsServerStartedFire
  | PopulateService

subsection \<open>class CallbackMap\<close>

text \<open>A JavaScript \<open>Map\<close> iterates in insertion order and \<open>set\<close> on a present key
  replaces the value in place: an association list with \<open>AList.update\<close>.\<close>

record CallbackMap =
  callbacks :: "(nat \<times> CallbackItem) list"
  pendingResponses :: int

definition new_CallbackMap :: CallbackMap where
  "new_CallbackMap = \<lparr>callbacks = [], pendingResponses = 0\<rparr>"

text \<open>\<open>destroy\<close> returns the calls \<open>callback.e(e)\<close> it makes, in iteration order.\<close>

definition CallbackMap_destroy :: "reason \<Rightarrow> CallbackMap \<Rightarrow> effect list \<times> CallbackMap" where
  "CallbackMap_destroy err cm =
     (map (\<lambda>callback. Reject (e callback) err) (map snd (callbacks cm)),
      cm\<lparr>callbacks := [], pendingResponses := 0\<rparr>)"

definition CallbackMap_add :: "nat \<Rightarrow> CallbackItem \<Rightarrow> CallbackMap \<Rightarrow> CallbackMap" where
  "CallbackMap_add sq callback cm =
     cm\<lparr>callbacks := AList.update sq callback (callbacks cm),
        pendingResponses := pendingResponses cm + 1\<rparr>"

definition CallbackMap_delete :: "nat \<Rightarrow> CallbackMap \<Rightarrow> CallbackMap" where
  "CallbackMap_delete sq cm =
     (if map_of (callbacks cm) sq \<noteq> None
      then cm\<lparr>callbacks := AList.delete sq (callbacks cm),
              pendingResponses := pendingResponses cm - 1\<rparr>
      else cm)"

definition CallbackMap_fetch :: "nat \<Rightarrow> CallbackMap \<Rightarrow> CallbackItem option \<times> CallbackMap" where
  "CallbackMap_fetch sq cm = (map_of (callbacks cm) sq, CallbackMap_delete sq cm)"

text \<open>A sequence of calls on one CallbackMap, as a client of the class may issue them.\<close>

datatype callback_op = Add nat CallbackItem | Fetch nat | Destroy reason

fun CallbackMap_apply :: "callback_op \<Rightarrow> CallbackMap \<Rightarrow> CallbackMap" where
  "CallbackMap_apply (Add sq callback) cm = CallbackMap_add sq callback cm"
| "CallbackMap_apply (Fetch sq) cm = snd (CallbackMap_fetch sq cm)"
| "CallbackMap_apply (Destroy err) cm = snd (CallbackMap_destroy err cm)"

fun CallbackMap_run :: "callback_op list \<Rightarrow> CallbackMap \<Rightarrow> CallbackMap" where
  "CallbackMap_run [] cm = cm"
| "CallbackMap_run (x # xs) cm = CallbackMap_run xs (CallbackMap_apply x cm)"

text \<open>No \<open>add\<close> of the run names a sequence number that is live when it is made.\<close>

fun adds_fresh :: "callback_op list \<Rightarrow> CallbackMap \<Rightarrow> bool" where
  "adds_fresh [] cm = True"
| "adds_fresh (Add sq callback # xs) cm =
     (map_of (callbacks cm) sq = None \<and> adds_fresh xs (CallbackMap_add sq callback cm))"
| "adds_fresh (x # xs) cm = adds_fresh xs (CallbackMap_apply x cm)"

text \<open>The number of live entries of the map (\<open>Map.size\<close>): its number of keys.\<close>

definition live_entries :: "CallbackMap \<Rightarrow> nat" where
  "live_entries cm = card (fst ` set (callbacks cm))"

subsection \<open>class RequestQueue\<close>

datatype promise = Resolved_null | Created promise_id

record RequestItem =
  request :: Request
  promise :: "promise option"
  item_callbacks :: "CallbackItem option"

record RequestQueue =
  queue :: "RequestItem list"
  sequenceNumber :: nat

definition new_RequestQueue :: RequestQueue where
  "new_RequestQueue = \<lparr>queue = [], sequenceNumber = 0\<rparr>"

definition RequestQueue_length :: "RequestQueue \<Rightarrow> nat" where
  "RequestQueue_length q = length (queue q)"

definition RequestQueue_push :: "RequestItem \<Rightarrow> RequestQueue \<Rightarrow> RequestQueue" where
  "RequestQueue_push item q = q\<lparr>queue := queue q @ [item]\<rparr>"

definition RequestQueue_shift :: "RequestQueue \<Rightarrow> RequestItem option \<times> RequestQueue" where
  "RequestQueue_shift q =
     (case queue q of [] \<Rightarrow> (None, q) | item # rest \<Rightarrow> (Some item, q\<lparr>queue := rest\<rparr>))"

text \<open>The \<open>for\<close> loop of \<open>tryCancelPendingRequest\<close>: the first item with the sequence
  number is spliced out.\<close>

fun splice_first :: "nat \<Rightarrow> RequestItem list \<Rightarrow> bool \<times> RequestItem list" where
  "splice_first sq [] = (False, [])"
| "splice_first sq (item # rest) =
     (if seq (request item) = sq then (True, rest)
      else (fst (splice_first sq rest), item # snd (splice_first sq rest)))"

definition RequestQueue_tryCancelPendingRequest :: "nat \<Rightarrow> RequestQueue \<Rightarrow> bool \<times> RequestQueue" where
  "RequestQueue_tryCancelPendingRequest sq q =
     (fst (splice_first sq (queue q)), q\<lparr>queue := snd (splice_first sq (queue q))\<rparr>)"

definition RequestQueue_createRequest :: "string \<Rightarrow> payload \<Rightarrow> RequestQueue \<Rightarrow> Request \<times> RequestQueue" where
  "RequestQueue_createRequest cmd args q =
     (\<lparr>seq = sequenceNumber q, type = ''request'', command = cmd, arguments = args\<rparr>,
      q\<lparr>sequenceNumber := sequenceNumber q + 1\<rparr>)"

text \<open>A sequence of calls on one RequestQueue, and the sequence numbers it issues.\<close>

datatype queue_op = CreateRequest string payload | Push RequestItem | Shift | TryCancelPendingRequest nat

fun RequestQueue_apply :: "queue_op \<Rightarrow> RequestQueue \<Rightarrow> RequestQueue" where
  "RequestQueue_apply (CreateRequest cmd args) q = snd (RequestQueue_createRequest cmd args q)"
| "RequestQueue_apply (Push item) q = RequestQueue_push item q"
| "RequestQueue_apply Shift q = snd (RequestQueue_shift q)"
| "RequestQueue_apply (TryCancelPendingRequest sq) q = snd (RequestQueue_tryCancelPendingRequest sq q)"

fun issued :: "queue_op list \<Rightarrow> RequestQueue \<Rightarrow> nat list" where
  "issued [] q = []"
| "issued (CreateRequest cmd args # xs) q =
     seq (fst (RequestQueue_createRequest cmd args q)) # issued xs (snd (RequestQueue_createRequest cmd args q))"
| "issued (x # xs) q = issued xs (RequestQueue_apply x q)"

fun creations :: "queue_op list \<Rightarrow> nat" where
  "creations [] = 0"
| "creations (CreateRequest cmd args # xs) = Suc (creations xs)"
| "creations (x # xs) = creations xs"

subsection \<open>class TypeScriptServiceClient\<close>

text \<open>What \<open>service()\<close> returns: the promise stored in \<open>servicePromise\<close> (identified by a
  number), or \<open>Promise.reject(err)\<close>.\<close>

datatype thenable = ServicePromise nat | Promise_reject reason

text \<open>\<open>class API\<close>, as far as the modelled methods ask it.\<close>

record API =
  has206Features :: bool
  has222Features :: bool
  has230Features :: bool

text \<open>The state of the client that the request path, the dispatcher, the cancellation
  path, the start of a session and the exit handler read or write. Calls on the logger
  are not recorded. Three fields are not fields of the source:
  \<open>reactions\<close> holds the continuations that \<open>sendRequest\<close> has attached to a promise and
  that have not run yet, \<open>promises\<close> counts the promises \<open>execute\<close> has created (the
  identity of the next one), and \<open>effects\<close> is the log described above.\<close>

record TypeScriptServiceClient =
  requestQueue :: RequestQueue
  client_callbacks :: CallbackMap
  servicePromise :: "nat option"
  lastError :: "reason option"
  lastStart :: int
  numberRestarts :: int
  isRestarting :: bool
  tsServerLogFile :: "string option"
  cancellationPipeName :: "string option"
  apiVersion :: API
  reactions :: "(thenable \<times> Request) list"
  promises :: nat
  effects :: "effect list"

text \<open>Decimal digits of a number, as a template string prints a sequence number.\<close>

fun string_of_nat :: "nat \<Rightarrow> string" where
  "string_of_nat n =
     (if n < 10 then [char_of (48 + n)]
      else string_of_nat (n div 10) @ [char_of (48 + n mod 10)])"

definition emit :: "effect list \<Rightarrow> TypeScriptServiceClient \<Rightarrow> TypeScriptServiceClient" where
  "emit xs s = s\<lparr>effects := effects s @ xs\<rparr>"

text \<open>\<open>startService\<close> only builds a promise chain when it is called; the chain runs later
  (\<open>startService_executor\<close>, \<open>startService_rejected\<close>, \<open>startService_forked\<close> and
  \<open>startService_forkFailed\<close> below). The call is logged.\<close>

definition startService :: "bool \<Rightarrow> TypeScriptServiceClient \<Rightarrow> TypeScriptServiceClient" where
  "startService resendModels s = emit [StartService resendModels] s"

text \<open>The text of an error as a message shows it (\<open>err.message || err\<close>).\<close>

fun message_of :: "reason \<Rightarrow> string" where
  "message_of (Error m) = m"
| "message_of (TypeError m) = m"
| "message_of (Failure response) = ''[object Object]''"

text \<open>The executor of the promise assigned to \<open>servicePromise\<close>, on the path where a
  tsserver is found: it starts the new session. \<open>p\<close> identifies the new promise;
  \<open>missing\<close> is the directory named in the warning when the configured path does not
  exist and the bundled tsserver is used instead; \<open>version\<close> is the API of the detected
  version, if one was detected; \<open>pipe\<close> is the fresh temp file name and \<open>logFile\<close> the
  log file created when logging is switched on.\<close>

definition startService_executor ::
  "nat \<Rightarrow> string option \<Rightarrow> API option \<Rightarrow> string \<Rightarrow> string option
     \<Rightarrow> TypeScriptServiceClient \<Rightarrow> TypeScriptServiceClient" where
  "startService_executor p missing version pipe logFile s =
     (let s1 = (case missing of
                  Some dir \<Rightarrow>
                    emit [ShowWarningMessage (''The path '' @ dir @ '' doesn'' @ [CHR 0x27]
                            @ ''t point to a valid tsserver install. Falling back to bundled TypeScript version.'')] s
                | None \<Rightarrow> s);
          api = (case version of Some v \<Rightarrow> v | None \<Rightarrow> apiVersion s1)
      in s1\<lparr>apiVersion := api,
            requestQueue := new_RequestQueue,
            client_callbacks := new_CallbackMap,
            lastError := None,
            cancellationPipeName := (if has222Features api then Some pipe else cancellationPipeName s1),
            tsServerLogFile := (if has222Features api \<and> logFile \<noteq> None then logFile else tsServerLogFile s1),
            servicePromise := Some p\<rparr>)"

text \<open>The same executor on the path where no tsserver is found, not even the bundled one:
  it rejects its promise before the session is reset.\<close>

definition startService_rejected :: "nat \<Rightarrow> string \<Rightarrow> TypeScriptServiceClient \<Rightarrow> TypeScriptServiceClient" where
  "startService_rejected p dir s =
     (emit [ShowWarningMessage (''The path '' @ dir @ '' doesn'' @ [CHR 0x27]
              @ ''t point to a valid tsserver install. Falling back to bundled TypeScript version.''),
            ShowErrorMessage (''VSCode'' @ [CHR 0x27]
              @ ''s tsserver was deleted by another application such as a misbehaving virus detection tool. Please reinstall VS Code.'')]
        s)\<lparr>servicePromise := Some p\<rparr>"

text \<open>The callback of \<open>electron.fork\<close> when the fork failed: it records the error, tells
  the user and returns; the promise of the executor is neither resolved nor rejected.\<close>

definition startService_forkFailed :: "reason \<Rightarrow> TypeScriptServiceClient \<Rightarrow> TypeScriptServiceClient" where
  "startService_forkFailed err s =
     emit [ShowErrorMessage (''TypeScript language server couldn'' @ [CHR 0x27]
             @ ''t be started. Error message is: '' @ message_of err),
           LogTelemetry ''error'']
       (s\<lparr>lastError := Some err\<rparr>)"

text \<open>\<open>restartTsServer\<close>: \<open>start\<close> is its inner function, \<open>kill\<close> the first continuation
  it attaches when a service promise exists; \<open>p\<close> identifies the promise that is stored.\<close>

definition restartTsServer_start :: "nat \<Rightarrow> TypeScriptServiceClient \<Rightarrow> TypeScriptServiceClient" where
  "restartTsServer_start p s = (startService True s)\<lparr>servicePromise := Some p\<rparr>"

definition restartTsServer_kill :: "TypeScriptServiceClient \<Rightarrow> TypeScriptServiceClient" where
  "restartTsServer_kill s = s\<lparr>isRestarting := True\<rparr>"

definition restartTsServer :: "nat \<Rightarrow> TypeScriptServiceClient \<Rightarrow> TypeScriptServiceClient" where
  "restartTsServer p s =
     (case servicePromise s of
        Some running \<Rightarrow> s\<lparr>servicePromise := Some p\<rparr>
      | None \<Rightarrow> restartTsServer_start p s)"

definition service :: "TypeScriptServiceClient \<Rightarrow> thenable \<times> TypeScriptServiceClient" where
  "service s =
     (case servicePromise s of
        Some p \<Rightarrow> (ServicePromise p, s)
      | None \<Rightarrow>
          (case lastError s of
             Some err \<Rightarrow> (Promise_reject err, s)
           | None \<Rightarrow>
               (case servicePromise (startService False s) of
                  Some p \<Rightarrow> (ServicePromise p, startService False s)
                | None \<Rightarrow> (Promise_reject (Error ''Could not create TS service''), startService False s))))"

text \<open>\<open>sendRequest\<close> traces, registers the callbacks and attaches the two continuations
  to \<open>this.service()\<close>; it neither writes nor settles anything itself.\<close>

definition sendRequest :: "RequestItem \<Rightarrow> TypeScriptServiceClient \<Rightarrow> TypeScriptServiceClient" where
  "sendRequest requestItem s =
     (let serverRequest = request requestItem;
          s1 = emit [TraceRequest serverRequest (item_callbacks requestItem \<noteq> None)
                       (RequestQueue_length (requestQueue s))] s;
          s2 = (case item_callbacks requestItem of
                  Some callback \<Rightarrow>
                    s1\<lparr>client_callbacks := CallbackMap_add (seq serverRequest) callback (client_callbacks s1)\<rparr>
                | None \<Rightarrow> s1);
          r = service s2
      in (snd r)\<lparr>reactions := reactions (snd r) @ [(fst r, serverRequest)]\<rparr>)"

text \<open>The second continuation of \<open>sendRequest\<close>: \<open>err => { fetch; callback.e(err) }\<close>.\<close>

definition sendRequest_onRejected :: "reason \<Rightarrow> Request \<Rightarrow> TypeScriptServiceClient \<Rightarrow> TypeScriptServiceClient" where
  "sendRequest_onRejected err serverRequest s =
     (let r = CallbackMap_fetch (seq serverRequest) (client_callbacks s);
          s1 = s\<lparr>client_callbacks := snd r\<rparr>
      in case fst r of Some callback \<Rightarrow> emit [Reject (e callback) err] s1 | None \<Rightarrow> s1)"

text \<open>The first continuation: \<open>childProcess.stdin.write(...)\<close>. When the write throws
  (\<open>thrown = Some err\<close>) the promise it returns is rejected and the second continuation runs.\<close>

definition sendRequest_onFulfilled ::
  "reason option \<Rightarrow> Request \<Rightarrow> TypeScriptServiceClient \<Rightarrow> TypeScriptServiceClient" where
  "sendRequest_onFulfilled thrown serverRequest s =
     (case thrown of
        None \<Rightarrow> emit [StdinWrite serverRequest] s
      | Some err \<Rightarrow> sendRequest_onRejected err serverRequest s)"

text \<open>The \<open>while\<close> loop of \<open>sendNextRequests\<close>.\<close>

function sendNextRequests :: "TypeScriptServiceClient \<Rightarrow> TypeScriptServiceClient" where
  "sendNextRequests s =
     (if pendingResponses (client_callbacks s) = 0 \<and> RequestQueue_length (requestQueue s) > 0
      then (case fst (RequestQueue_shift (requestQueue s)) of
              Some item \<Rightarrow>
                sendNextRequests (sendRequest item (s\<lparr>requestQueue := snd (RequestQueue_shift (requestQueue s))\<rparr>))
            | None \<Rightarrow> sendNextRequests (s\<lparr>requestQueue := snd (RequestQueue_shift (requestQueue s))\<rparr>))
      else s)"
  by pat_completeness auto
termination
  by (relation "measure (\<lambda>s. length (queue (requestQueue s)))")
     (auto simp: sendRequest_def service_def startService_def emit_def Let_def RequestQueue_shift_def
        RequestQueue_length_def split: option.splits list.splits)

declare sendNextRequests.simps [simp del]
declare string_of_nat.simps [simp del]

text \<open>The third argument of \<open>execute\<close>: \<open>boolean | CancellationToken | undefined\<close>.\<close>

datatype expectsResultOrToken = Boolean bool | Token nat | Undefined

text \<open>\<open>execute\<close>; \<open>now\<close> is the reading of \<open>Date.now()\<close>. The promise returned for a
  result-bearing call is the one whose \<open>resolve\<close> and \<open>reject\<close> are stored in the item.
  The \<open>catch\<close> handler of the source only logs and rethrows and is left out.
  \<open>execute_enqueue\<close> is the method up to and including \<open>this.requestQueue.push\<close>;
  \<open>execute\<close> then calls \<open>sendNextRequests\<close> and returns the promise.\<close>

definition execute_enqueue ::
  "string \<Rightarrow> payload \<Rightarrow> expectsResultOrToken \<Rightarrow> int \<Rightarrow> TypeScriptServiceClient
     \<Rightarrow> promise \<times> TypeScriptServiceClient" where
  "execute_enqueue cmd args expects now s =
     (let token = (case expects of Token t \<Rightarrow> Some t | _ \<Rightarrow> None);
          expectsResult = (case expects of Boolean b \<Rightarrow> b | _ \<Rightarrow> True);
          r = RequestQueue_createRequest cmd args (requestQueue s);
          req = fst r;
          s1 = s\<lparr>requestQueue := snd r\<rparr>;
          result = (if expectsResult then Created (promises s1) else Resolved_null);
          cbs = (if expectsResult
                 then Some \<lparr>c = promises s1, e = promises s1, start = now\<rparr> else None);
          s2 = (if expectsResult
                then (case token of
                        Some t \<Rightarrow> emit [OnCancellationRequested t (seq req)] (s1\<lparr>promises := promises s1 + 1\<rparr>)
                      | None \<Rightarrow> s1\<lparr>promises := promises s1 + 1\<rparr>)
                else s1);
          requestInfo = \<lparr>request = req, promise = Some result, item_callbacks = cbs\<rparr>
      in (result, s2\<lparr>requestQueue := RequestQueue_push requestInfo (requestQueue s2)\<rparr>))"

definition execute ::
  "string \<Rightarrow> payload \<Rightarrow> expectsResultOrToken \<Rightarrow> int \<Rightarrow> TypeScriptServiceClient
     \<Rightarrow> promise \<times> TypeScriptServiceClient" where
  "execute cmd args expects now s =
     (fst (execute_enqueue cmd args expects now s),
      sendNextRequests (snd (execute_enqueue cmd args expects now s)))"

text \<open>\<open>tryCancelRequest\<close>: the \<open>try\<close> block computes the result, the \<open>finally\<close> block
  fetches the callbacks of the sequence number from the CallbackMap. An exception of
  \<open>fs.writeFileSync\<close> is swallowed by the source; the log holds the attempt.\<close>

definition tryCancelRequest :: "nat \<Rightarrow> TypeScriptServiceClient \<Rightarrow> bool \<times> TypeScriptServiceClient" where
  "tryCancelRequest sq s =
     (let r = RequestQueue_tryCancelPendingRequest sq (requestQueue s);
          s0 = s\<lparr>requestQueue := snd r\<rparr>;
          pipe = (case cancellationPipeName s0 of Some name \<Rightarrow> name | None \<Rightarrow> []);
          result = (fst r \<or> (has222Features (apiVersion s0) \<and> pipe \<noteq> []));
          s1 = (if fst r
                then emit [LogTrace (''TypeScript Service: canceled request with sequence number ''
                                      @ string_of_nat sq)] s0
                else if has222Features (apiVersion s0) \<and> pipe \<noteq> []
                then emit [LogTrace (''TypeScript Service: trying to cancel ongoing request with sequence number ''
                                      @ string_of_nat sq),
                           WriteFileSync (pipe @ string_of_nat sq)] s0
                else emit [LogTrace (''TypeScript Service: tried to cancel request with sequence number ''
                                      @ string_of_nat sq @ ''. But request got already delivered.'')] s0);
          f = CallbackMap_fetch sq (client_callbacks s1);
          s2 = s1\<lparr>client_callbacks := snd f\<rparr>
      in (result,
          case fst f of
            Some p \<Rightarrow> emit [Reject (e p) (Error (''Cancelled Request '' @ string_of_nat sq))] s2
          | None \<Rightarrow> s2))"

text \<open>\<open>dispatchTelemetryEvent\<close>. The first component is the exception that leaves the
  method: the \<open>TypeError\<close> of reading \<open>telemetryEventName\<close> of a missing body, or
  \<open>installedPackages\<close> of a missing payload of a \<open>typingsInstalled\<close> event. The default
  branch guards the payload and catches what its loop throws.\<close>

definition dispatchTelemetryEvent ::
  "Body option \<Rightarrow> TypeScriptServiceClient \<Rightarrow> reason option \<times> TypeScriptServiceClient" where
  "dispatchTelemetryEvent telemetryData s =
     (case telemetryData of
        None \<Rightarrow> (Some (TypeError ''telemetryEventName''), s)
      | Some data \<Rightarrow>
          (if telemetryEventName data = ''typingsInstalled'' \<and> payload data = None
           then (Some (TypeError ''installedPackages''), s)
           else (None, emit [LogTelemetry (telemetryEventName data)] s)))"

text \<open>\<open>dispatchEvent\<close>. A host call or an emitter is logged under its name. The first
  component is the exception that leaves the method.\<close>

definition dispatchEvent :: "Incoming \<Rightarrow> TypeScriptServiceClient \<Rightarrow> reason option \<times> TypeScriptServiceClient" where
  "dispatchEvent ev s =
     (if event ev = ''syntaxDiag'' then (None, emit [HostEvent ''syntaxDiagnosticsReceived'' ev] s)
      else if event ev = ''semanticDiag'' then (None, emit [HostEvent ''semanticDiagnosticsReceived'' ev] s)
      else if event ev = ''configFileDiag'' then (None, emit [HostEvent ''configFileDiagnosticsReceived'' ev] s)
      else if event ev = ''telemetry'' then dispatchTelemetryEvent (body ev) s
      else if event ev = ''projectLanguageServiceState''
      then (None, if body ev \<noteq> None then emit [HostEvent ''onProjectLanguageServiceStateChanged'' ev] s else s)
      else if event ev = ''beginInstallTypes''
      then (None, if body ev \<noteq> None then emit [HostEvent ''onDidBeginInstallTypings'' ev] s else s)
      else if event ev = ''endInstallTypes''
      then (None, if body ev \<noteq> None then emit [HostEvent ''onDidEndInstallTypings'' ev] s else s)
      else if event ev = ''typesInstallerInitializationFailed''
      then (None, if body ev \<noteq> None then emit [HostEvent ''onTypesInstallerInitializationFailed'' ev] s else s)
      else (None, s))"

text \<open>The \<open>try\<close> block of \<open>dispatchMessage\<close>: the exception thrown in it, if any, and the
  state it leaves.\<close>

definition dispatchMessage_try :: "Incoming \<Rightarrow> TypeScriptServiceClient \<Rightarrow> reason option \<times> TypeScriptServiceClient" where
  "dispatchMessage_try message s =
     (if type message = ''response''
      then (let f = CallbackMap_fetch (request_seq message) (client_callbacks s);
                s1 = s\<lparr>client_callbacks := snd f\<rparr>
            in (None,
                case fst f of
                  Some p \<Rightarrow>
                    emit [TraceResponse message (start p),
                          if success message then Resolve (c p) message else Reject (e p) (Failure message)] s1
                | None \<Rightarrow> s1))
      else if type message = ''event''
      then dispatchEvent message (emit [TraceEvent message] s)
      else (Some (Error (''Unknown message type '' @ type message @ '' recevied'')), s))"

text \<open>\<open>dispatchMessage\<close>: the \<open>finally\<close> block runs \<open>sendNextRequests\<close> on every path;
  an exception of the \<open>try\<close> block then leaves the method (there is no \<open>catch\<close>).\<close>

definition dispatchMessage :: "Incoming \<Rightarrow> TypeScriptServiceClient \<Rightarrow> reason option \<times> TypeScriptServiceClient" where
  "dispatchMessage message s =
     (fst (dispatchMessage_try message s), sendNextRequests (snd (dispatchMessage_try message s)))"

text \<open>\<open>serviceExited\<close>. \<open>now\<close> is the reading of \<open>Date.now()\<close> that \<open>diff\<close> is computed
  from, \<open>now'\<close> the later reading stored in \<open>lastStart\<close>. The continuation of the prompt
  (the report-issue command) is left out.\<close>

definition serviceExited :: "bool \<Rightarrow> int \<Rightarrow> int \<Rightarrow> TypeScriptServiceClient \<Rightarrow> TypeScriptServiceClient" where
  "serviceExited restart now now' s =
     (let s1 = emit (fst (CallbackMap_destroy (Error ''Service died.'') (client_callbacks s)))
                 (s\<lparr>servicePromise := None, tsServerLogFile := None\<rparr>);
          s2 = s1\<lparr>client_callbacks := new_CallbackMap\<rparr>
      in if restart
         then (let diff = now - lastStart s2;
                   s3 = s2\<lparr>numberRestarts := numberRestarts s2 + 1\<rparr>
               in if numberRestarts s3 > 5
                  then (let s4 = s3\<lparr>numberRestarts := 0\<rparr>
                        in if diff < 10 * 1000
                           then emit [ShowErrorMessage ''The TypeScript language service died 5 times right after it got started. The service will not be restarted.'',
                                      LogTelemetry ''serviceExited''] (s4\<lparr>lastStart := now'\<rparr>)
                           else if diff < 60 * 1000
                           then startService True
                                  (emit [ShowWarningMessage ''The TypeScript language service died unexpectedly 5 times in the last 5 Minutes.'']
                                     (s4\<lparr>lastStart := now'\<rparr>))
                           else startService True s4)
                  else startService True s3)
         else s2)"

text \<open>\<open>setCompilerOptionsForInferredProjects\<close> and \<open>serviceStarted\<close>; \<open>now\<close> and
  \<open>now'\<close> are the readings of \<open>Date.now()\<close> in the two calls of \<open>execute\<close>. The
  arguments of the requests are opaque; the \<open>catch\<close> handler only logs.\<close>

definition setCompilerOptionsForInferredProjects :: "int \<Rightarrow> TypeScriptServiceClient \<Rightarrow> TypeScriptServiceClient" where
  "setCompilerOptionsForInferredProjects now s =
     (if \<not> has206Features (apiVersion s) then s
      else snd (execute ''compilerOptionsForInferredProjects''
                  (if has230Features (apiVersion s) then ''{options:{...,checkJs}}'' else ''{options:{...}}'')
                  (Boolean True) now s))"

definition serviceStarted :: "bool \<Rightarrow> int \<Rightarrow> int \<Rightarrow> TypeScriptServiceClient \<Rightarrow> TypeScriptServiceClient" where
  "serviceStarted resendModels now now' s =
     (let s1 = snd (execute ''configure'' ''{hostInfo:vscode}'' Undefined now s);
          s2 = setCompilerOptionsForInferredProjects now' s1
      in if resendModels then emit [PopulateService] s2 else s2)"

text \<open>The callback of \<open>electron.fork\<close> when the fork succeeded; \<open>started\<close> is the reading
  of \<open>Date.now()\<close> stored in \<open>lastStart\<close>. The promise of the executor is resolved here.\<close>

definition startService_forked ::
  "int \<Rightarrow> bool \<Rightarrow> int \<Rightarrow> int \<Rightarrow> TypeScriptServiceClient \<Rightarrow> TypeScriptServiceClient" where
  "startService_forked started resendModels now now' s =
     serviceStarted resendModels now now'
       (emit [OnReadyResolve, OnTsServerStartedFire] (s\<lparr>lastStart := started\<rparr>))"

subsection \<open>The handlers as events\<close>

text \<open>How a promise that \<open>sendRequest\<close> attached its continuations to settles: fulfilled
  with the child process (and then the write returns or throws), or rejected.\<close>

datatype outcome = Fulfilled "reason option" | Rejected reason

text \<open>Running the continuations of the \<open>i\<close>-th attached reaction. A promise made by
  \<open>Promise.reject(err)\<close> can only reject with \<open>err\<close>. Whether and how a service promise
  settles is decided outside these continuations: the promise of an executor is resolved
  by the callback of a successful fork and is left unsettled by that of a failed one, in
  which case no reaction attached to it ever runs.\<close>

definition settle :: "nat \<Rightarrow> outcome \<Rightarrow> TypeScriptServiceClient \<Rightarrow> TypeScriptServiceClient" where
  "settle i out s =
     (if i < length (reactions s)
      then (let s1 = s\<lparr>reactions := take i (reactions s) @ drop (Suc i) (reactions s)\<rparr>;
                serverRequest = snd (reactions s ! i)
            in case fst (reactions s ! i) of
                 Promise_reject err \<Rightarrow> sendRequest_onRejected err serverRequest s1
               | ServicePromise p \<Rightarrow>
                   (case out of
                      Fulfilled thrown \<Rightarrow> sendRequest_onFulfilled thrown serverRequest s1
                    | Rejected err \<Rightarrow> sendRequest_onRejected err serverRequest s1))
      else s)"

text \<open>The constructor; \<open>now\<close> is the reading of \<open>Date.now()\<close>.\<close>

definition new_TypeScriptServiceClient :: "int \<Rightarrow> TypeScriptServiceClient" where
  "new_TypeScriptServiceClient now =
     startService False
       \<lparr>requestQueue = new_RequestQueue, client_callbacks = new_CallbackMap,
        servicePromise = None, lastError = None, lastStart = now, numberRestarts = 0,
        isRestarting = False, tsServerLogFile = None, cancellationPipeName = None,
        apiVersion = \<lparr>has206Features = False, has222Features = False, has230Features = False\<rparr>,
        reactions = [], promises = 0, effects = []\<rparr>"

text \<open>What can happen to a client: a call of \<open>execute\<close>, a cancellation token firing, a
  message from the reader, the \<open>exit\<close> and \<open>error\<close> handlers of the child process, a
  promise settling, a call of \<open>restartTsServer\<close> and its two continuations (\<open>Kill\<close>,
  \<open>Start\<close>), and the stages of \<open>startService\<close>: its executor (\<open>Spawn\<close>, or \<open>NoServer\<close>
  when no tsserver is found) and the callback of the fork (\<open>Forked\<close>, \<open>ForkFailed\<close>).\<close>

datatype client_event =
    Execute string payload expectsResultOrToken int
  | Cancel nat
  | Receive Incoming
  | ChildExit "int option" int int
  | ChildError reason int int
  | Settle nat outcome
  | RestartTsServer nat
  | Kill
  | Start nat
  | Spawn nat "string option" "API option" string "string option"
  | NoServer nat string
  | Forked int bool int int
  | ForkFailed reason

fun step :: "client_event \<Rightarrow> TypeScriptServiceClient \<Rightarrow> TypeScriptServiceClient" where
  "step (Execute cmd args expects now) s = snd (execute cmd args expects now s)"
| "step (Cancel sq) s = snd (tryCancelRequest sq s)"
| "step (Receive message) s = snd (dispatchMessage message s)"
| "step (ChildExit code now now') s =
     (serviceExited (\<not> isRestarting s) now now'
        (case code of None \<Rightarrow> s | Some n \<Rightarrow> emit [LogTelemetry ''tsserver.exitWithCode''] s))
       \<lparr>isRestarting := False\<rparr>"
| "step (ChildError err now now') s =
     serviceExited False now now' (emit [LogTelemetry ''tsserver.error''] (s\<lparr>lastError := Some err\<rparr>))"
| "step (Settle i out) s = settle i out s"
| "step (RestartTsServer p) s = restartTsServer p s"
| "step Kill s = restartTsServer_kill s"
| "step (Start p) s = restartTsServer_start p s"
| "step (Spawn p missing version pipe logFile) s = startService_executor p missing version pipe logFile s"
| "step (NoServer p dir) s = startService_rejected p dir s"
| "step (Forked started resendModels now now') s = startService_forked started resendModels now now' s"
| "step (ForkFailed err) s = startService_forkFailed err s"

fun run :: "client_event list \<Rightarrow> TypeScriptServiceClient \<Rightarrow> TypeScriptServiceClient" where
  "run [] s = s"
| "run (ev # evs) s = run evs (step ev s)"

text \<open>The events of one session: no new session is started among them.\<close>

fun starts_session :: "client_event \<Rightarrow> bool" where
  "starts_session (Spawn p missing version pipe logFile) = True"
| "starts_session ev = False"

definition in_session :: "client_event list \<Rightarrow> bool" where
  "in_session evs = (filter starts_session evs = [])"

subsection \<open>Observations on a state\<close>

text \<open>The sequence numbers of the queued requests, the part of the log written between
  two states, the calls of \<open>resolve\<close> and \<open>reject\<close> made so far, and the promises they
  settled.\<close>

definition queue_seqs :: "TypeScriptServiceClient \<Rightarrow> nat list" where
  "queue_seqs s = map (\<lambda>item. seq (request item)) (queue (requestQueue s))"

definition log_since :: "TypeScriptServiceClient \<Rightarrow> TypeScriptServiceClient \<Rightarrow> effect list" where
  "log_since s s' = drop (length (effects s)) (effects s')"

fun is_settlement :: "effect \<Rightarrow> bool" where
  "is_settlement (Resolve p v) = True"
| "is_settlement (Reject p r) = True"
| "is_settlement x = False"

definition settlements :: "TypeScriptServiceClient \<Rightarrow> effect list" where
  "settlements s = filter is_settlement (effects s)"

fun settled :: "effect \<Rightarrow> promise_id list" where
  "settled (Resolve p v) = [p]"
| "settled (Reject p r) = [p]"
| "settled x = []"

definition settled_promises :: "TypeScriptServiceClient \<Rightarrow> promise_id list" where
  "settled_promises s = concat (map settled (effects s))"

text \<open>The items one run of the dispatch loop takes from a queue when it starts with no
  pending response: the requests without callbacks at its head, and the first request
  with callbacks.\<close>

definition dispatchable :: "RequestItem list \<Rightarrow> RequestItem list" where
  "dispatchable items =
     takeWhile (\<lambda>item. item_callbacks item = None) items
       @ take 1 (dropWhile (\<lambda>item. item_callbacks item = None) items)"

text \<open>Sequence numbers in the registry and in the queue have been issued by the current
  RequestQueue, each at most once, and the pending count is the number of entries.\<close>

definition issued_once :: "TypeScriptServiceClient \<Rightarrow> bool" where
  "issued_once s =
     (list_all (\<lambda>k. k < sequenceNumber (requestQueue s)) (map fst (callbacks (client_callbacks s)))
      \<and> list_all (\<lambda>k. k < sequenceNumber (requestQueue s)) (queue_seqs s)
      \<and> distinct (map fst (callbacks (client_callbacks s)) @ queue_seqs s)
      \<and> pendingResponses (client_callbacks s) = int (length (callbacks (client_callbacks s))))"

text \<open>No callbacks are or can become registered under the sequence number \<open>n\<close>.\<close>

definition never_registered :: "nat \<Rightarrow> TypeScriptServiceClient \<Rightarrow> bool" where
  "never_registered n s =
     (n < sequenceNumber (requestQueue s)
      \<and> map_of (callbacks (client_callbacks s)) n = None
      \<and> list_all (\<lambda>item. seq (request item) \<noteq> n \<or> item_callbacks item = None) (queue (requestQueue s)))"

subsection \<open>Observations used by the crash-loop breaker\<close>

fun is_fatal :: "effect \<Rightarrow> bool" where
  "is_fatal (ShowErrorMessage m) = True"
| "is_fatal x = False"

fun is_warning :: "effect \<Rightarrow> bool" where
  "is_warning (ShowWarningMessage m) = True"
| "is_warning x = False"

subsection \<open>Example values\<close>

definition callback0 :: CallbackItem where
  "callback0 = \<lparr>c = 0, e = 0, start = 0\<rparr>"

definition registry_ops :: "callback_op list" where
  "registry_ops = [Add 0 callback0, Add 1 callback0, Fetch 0, Fetch 5, Add 0 callback0, Destroy (Error ''Service died.''), Add 3 callback0]"

definition current_api :: API where
  "current_api = \<lparr>has206Features = True, has222Features = True, has230Features = True\<rparr>"

definition response_to :: "nat \<Rightarrow> Incoming" where
  "response_to n = \<lparr>seq = 0, type = ''response'', request_seq = n, success = True, event = [], body = None\<rparr>"

text \<open>The start of a session: the executor, the callback of the fork with its requests
  \<open>configure\<close> (sequence number 0) and \<open>compilerOptionsForInferredProjects\<close> (sequence number
  1), and for each of the two its write and its response.\<close>

definition started_events :: "client_event list" where
  "started_events =
     [Spawn 0 None (Some current_api) ''tscancellation-1'' None, Forked 0 False 0 0,
      Settle 0 (Fulfilled None), Receive (response_to 0),
      Settle 0 (Fulfilled None), Receive (response_to 1)]"

text \<open>A session in which a result-bearing request (sequence number 2) has been
  dispatched and a fire-and-forget request (sequence number 3) is executed after it.\<close>

definition session_events :: "client_event list" where
  "session_events =
     started_events @
     [Execute ''quickinfo'' ''{}'' (Boolean True) 1,
      Execute ''change'' ''{}'' (Boolean False) 2]"

definition gated_client :: TypeScriptServiceClient where
  "gated_client = run session_events (new_TypeScriptServiceClient 0)"

text \<open>The same with more requests behind the first one (sequence numbers 3 to 6, of which
  5 is result-bearing), and the state in which the response to request 2 has just been
  taken from the registry.\<close>

definition busy_events :: "client_event list" where
  "busy_events =
     started_events @
     [Execute ''quickinfo'' ''{}'' (Boolean True) 1,
      Execute ''change'' ''{}'' (Boolean False) 2,
      Execute ''change'' ''{}'' (Boolean False) 3,
      Execute ''completions'' ''{}'' Undefined 4,
      Execute ''change'' ''{}'' (Boolean False) 5]"

definition busy_client :: TypeScriptServiceClient where
  "busy_client = run busy_events (new_TypeScriptServiceClient 0)"

definition freed_client :: TypeScriptServiceClient where
  "freed_client = snd (dispatchMessage_try (response_to 2) busy_client)"

definition stale_response :: Incoming where
  "stale_response = response_to 9"

definition unknown_message :: Incoming where
  "unknown_message = \<lparr>seq = 0, type = ''ping'', request_seq = 0, success = True, event = [], body = None\<rparr>"

text \<open>A session in which request 2 is in flight and request 3, result-bearing and with
  a cancellation token, is still queued.\<close>

definition cancel_events :: "client_event list" where
  "cancel_events =
     started_events @
     [Execute ''quickinfo'' ''{}'' (Token 7) 1,
      Execute ''completions'' ''{}'' (Token 8) 2]"

definition queued_client :: TypeScriptServiceClient where
  "queued_client = run cancel_events (new_TypeScriptServiceClient 0)"

text \<open>A client whose worker has reported an error, and a result-bearing item.\<close>

definition failed_client :: TypeScriptServiceClient where
  "failed_client = step (ChildError (Error ''spawn ENOENT'') 5 5) gated_client"

definition pending_item :: RequestItem where
  "pending_item =
     \<lparr>request = \<lparr>seq = 4, type = ''request'', command = ''quickinfo'', arguments = ''{}''\<rparr>,
      promise = Some (Created 3), item_callbacks = Some \<lparr>c = 3, e = 3, start = 9\<rparr>\<rparr>"

text \<open>Six sessions in a row, each exiting with code 1 half a second after its start.\<close>

definition crash_events :: "client_event list" where
  "crash_events =
     concat (map (\<lambda>k. [Spawn k None (Some current_api) ''tscancellation-1'' None,
                         Forked (1000 * int k) True (1000 * int k) (1000 * int k),
                         ChildExit (Some 1) (1000 * int k + 500) (1000 * int k + 500)]) [0..<6])"

text \<open>A session up to a pending result-bearing request, and events after a
  fire-and-forget request that follows it: another request, the response to request 2,
  and two writes.\<close>

definition history_events :: "client_event list" where
  "history_events = started_events @ [Execute ''quickinfo'' ''{}'' (Boolean True) 1]"

definition later_events :: "client_event list" where
  "later_events =
     [Execute ''completions'' ''{}'' Undefined 3, Receive (response_to 2),
      Settle 0 (Fulfilled None), Settle 0 (Fulfilled None)]"

text \<open>The worker of the busy session exits with code 1 and the client starts the next
  session.\<close>

definition teardown_events :: "client_event list" where
  "teardown_events =
     busy_events @
     [ChildExit (Some 1) 9 9, Spawn 1 None (Some current_api) ''tscancellation-2'' None]"

definition torn_down_client :: TypeScriptServiceClient where
  "torn_down_client = run teardown_events (new_TypeScriptServiceClient 0)"

text \<open>A restart asked for while request 2 is written and awaits its response:
  \<open>restartTsServer\<close>, its continuations \<open>kill\<close> and \<open>start\<close>, the executor of the new
  session, and then the \<open>exit\<close> event of the killed worker.\<close>

definition running_events :: "client_event list" where
  "running_events =
     started_events @
     [Execute ''quickinfo'' ''{}'' (Boolean True) 1, Settle 0 (Fulfilled None)]"

definition restart_events :: "client_event list" where
  "restart_events =
     running_events @
     [RestartTsServer 1, Kill, Start 2,
      Spawn 3 None (Some current_api) ''tscancellation-2'' None,
      ChildExit None 5 5]"

definition running_client :: TypeScriptServiceClient where
  "running_client = run running_events (new_TypeScriptServiceClient 0)"

definition restarted_client :: TypeScriptServiceClient where
  "restarted_client = run restart_events (new_TypeScriptServiceClient 0)"

text \<open>A session whose fork fails, and two result-bearing requests executed after that.\<close>

definition failed_fork_events :: "client_event list" where
  "failed_fork_events =
     [Spawn 0 None (Some current_api) ''tscancellation-1'' None,
      ForkFailed (Error ''spawn ENOENT''),
      Execute ''quickinfo'' ''{}'' (Boolean True) 1,
      Execute ''completions'' ''{}'' (Boolean True) 2]"

definition failed_fork_client :: TypeScriptServiceClient where
  "failed_fork_client = run failed_fork_events (new_TypeScriptServiceClient 0)"

section \<open>The sequencer\<close>

lemma issued_from: "issued xs q = [sequenceNumber q ..< sequenceNumber q + creations xs]"
proof (induction xs arbitrary: q)
  case Nil
  show ?case by simp
next
  case (Cons x xs)
  show ?case
  proof (cases x)
    case (CreateRequest cmd args)
    then show ?thesis
      by (simp add: Cons.IH RequestQueue_createRequest_def upt_conv_Cons)
  next
    case (Push item)
    then show ?thesis by (simp add: Cons.IH RequestQueue_push_def)
  next
    case Shift
    then show ?thesis by (simp add: Cons.IH RequestQueue_shift_def split: list.splits)
  next
    case (TryCancelPendingRequest sq)
    then show ?thesis by (simp add: Cons.IH RequestQueue_tryCancelPendingRequest_def)
  qed
qed

section \<open>The Callback Registry\<close>

lemma live_entries_add:
  "live_entries (CallbackMap_add sq cb cm) =
     (if map_of (callbacks cm) sq = None then Suc (live_entries cm) else live_entries cm)"
  by (auto simp: live_entries_def CallbackMap_add_def dom_update map_of_eq_None_iff insert_absorb)

lemma keys_delete: "fst ` set (AList.delete sq al) = fst ` set al - {sq}"
  by (induction al) auto

lemma live_entries_delete:
  "live_entries (CallbackMap_delete sq cm) =
     (if map_of (callbacks cm) sq = None then live_entries cm else live_entries cm - 1)"
  by (auto simp: live_entries_def CallbackMap_delete_def keys_delete map_of_eq_None_iff)

lemma live_entries_pos: "map_of (callbacks cm) sq \<noteq> None \<Longrightarrow> 0 < live_entries cm"
  by (auto simp: live_entries_def map_of_eq_None_iff card_gt_0_iff)

lemma count_apply_ge:
  "int (live_entries cm) \<le> pendingResponses cm \<Longrightarrow>
   int (live_entries (CallbackMap_apply x cm)) \<le> pendingResponses (CallbackMap_apply x cm)"
proof (cases x)
  case (Add sq cb)
  then show ?thesis if "int (live_entries cm) \<le> pendingResponses cm"
    using that by (simp add: live_entries_add) (simp add: CallbackMap_add_def)
next
  case (Fetch sq)
  then show ?thesis if "int (live_entries cm) \<le> pendingResponses cm"
    using that live_entries_pos[of cm sq]
    by (simp add: CallbackMap_fetch_def live_entries_delete) (auto simp: CallbackMap_delete_def)
next
  case (Destroy err)
  then show ?thesis by (simp add: CallbackMap_destroy_def live_entries_def)
qed

lemma count_apply_eq:
  "adds_fresh [x] cm \<Longrightarrow> pendingResponses cm = int (live_entries cm) \<Longrightarrow>
   pendingResponses (CallbackMap_apply x cm) = int (live_entries (CallbackMap_apply x cm))"
proof (cases x)
  case (Add sq cb)
  then show ?thesis if "adds_fresh [x] cm" "pendingResponses cm = int (live_entries cm)"
    using that by (simp add: live_entries_add) (simp add: CallbackMap_add_def)
next
  case (Fetch sq)
  then show ?thesis if "pendingResponses cm = int (live_entries cm)"
    using that live_entries_pos[of cm sq]
    by (simp add: CallbackMap_fetch_def live_entries_delete) (auto simp: CallbackMap_delete_def)
next
  case (Destroy err)
  then show ?thesis by (simp add: CallbackMap_destroy_def live_entries_def)
qed

lemma count_run_ge:
  "int (live_entries cm) \<le> pendingResponses cm \<Longrightarrow>
   int (live_entries (CallbackMap_run xs cm)) \<le> pendingResponses (CallbackMap_run xs cm)"
  by (induction xs arbitrary: cm) (simp_all add: count_apply_ge)

lemma adds_fresh_Cons:
  "adds_fresh (x # xs) cm = (adds_fresh [x] cm \<and> adds_fresh xs (CallbackMap_apply x cm))"
  by (cases x) simp_all

lemma count_run_eq:
  "adds_fresh xs cm \<Longrightarrow> pendingResponses cm = int (live_entries cm) \<Longrightarrow>
   pendingResponses (CallbackMap_run xs cm) = int (live_entries (CallbackMap_run xs cm))"
proof (induction xs arbitrary: cm)
  case Nil
  then show ?case by simp
next
  case (Cons x xs)
  from Cons.prems(1) have "adds_fresh [x] cm" "adds_fresh xs (CallbackMap_apply x cm)"
    using adds_fresh_Cons by blast+
  with Cons.prems(2) Cons.IH show ?case
    by (simp add: count_apply_eq)
qed

lemma fetch_absent:
  "map_of (callbacks cm) sq = None \<Longrightarrow> CallbackMap_fetch sq cm = (None, cm)"
  by (simp add: CallbackMap_fetch_def CallbackMap_delete_def)

lemma map_of_delete_same [simp]: "map_of (AList.delete k al) k = None"
  by (simp add: delete_conv')

lemma map_of_update_same [simp]: "map_of (AList.update k v al) k = Some v"
  by (simp add: update_conv')

lemma update_absent: "k \<notin> fst ` set al \<Longrightarrow> AList.update k v al = al @ [(k, v)]"
  by (induction al) auto

lemma length_delete_distinct:
  "distinct (map fst al) \<Longrightarrow> k \<in> fst ` set al \<Longrightarrow> Suc (length (AList.delete k al)) = length al"
proof (induction al)
  case Nil
  then show ?case by simp
next
  case (Cons p al)
  show ?case
  proof (cases "fst p = k")
    case True
    with Cons.prems(1) have "k \<notin> fst ` set al" by auto
    then have "AList.delete k al = al" by simp
    with True show ?thesis by simp
  next
    case False
    with Cons.prems have "k \<in> fst ` set al" "distinct (map fst al)" by auto
    with Cons.IH have "Suc (length (AList.delete k al)) = length al" by simp
    with False show ?thesis by simp
  qed
qed

lemma splice_first_seqs:
  "map (\<lambda>item. seq (request item)) (snd (splice_first k items)) = remove1 k (map (\<lambda>item. seq (request item)) items)"
  by (induction items) auto

lemma splice_first_subset: "set (snd (splice_first k items)) \<subseteq> set items"
  by (induction items) auto

section \<open>The request path\<close>

lemma service_fields [simp]:
  "requestQueue (snd (service s)) = requestQueue s"
  "client_callbacks (snd (service s)) = client_callbacks s"
  "reactions (snd (service s)) = reactions s"
  "promises (snd (service s)) = promises s"
  by (simp_all add: service_def startService_def emit_def split: option.splits)

lemma service_effects:
  "effects (snd (service s)) =
     effects s @ (if servicePromise s = None \<and> lastError s = None then [StartService False] else [])"
  by (simp add: service_def startService_def emit_def split: option.splits)

lemma sendRequest_fields [simp]:
  "requestQueue (sendRequest item s) = requestQueue s"
  "promises (sendRequest item s) = promises s"
  "client_callbacks (sendRequest item s) =
     (case item_callbacks item of
        Some callback \<Rightarrow> CallbackMap_add (seq (request item)) callback (client_callbacks s)
      | None \<Rightarrow> client_callbacks s)"
  "map snd (reactions (sendRequest item s)) = map snd (reactions s) @ [request item]"
  by (simp_all add: sendRequest_def Let_def emit_def split: option.splits)

lemma sendRequest_settlements [simp]: "settlements (sendRequest item s) = settlements s"
  by (simp add: sendRequest_def Let_def settlements_def service_effects emit_def split: option.splits)

lemma sendNextRequests_blocked:
  "pendingResponses (client_callbacks s) \<noteq> 0 \<Longrightarrow> sendNextRequests s = s"
  by (simp add: sendNextRequests.simps)

lemma sendNextRequests_empty:
  "queue (requestQueue s) = [] \<Longrightarrow> sendNextRequests s = s"
  by (simp add: sendNextRequests.simps RequestQueue_length_def)

lemma sendNextRequests_Cons:
  "pendingResponses (client_callbacks s) = 0 \<Longrightarrow> queue (requestQueue s) = item # rest \<Longrightarrow>
   sendNextRequests s = sendNextRequests (sendRequest item (s\<lparr>requestQueue := (requestQueue s)\<lparr>queue := rest\<rparr>\<rparr>))"
  by (subst sendNextRequests.simps) (simp add: RequestQueue_length_def RequestQueue_shift_def)

lemma sendNextRequests_induct [consumes 0, case_names blocked empty step]:
  assumes "\<And>s. pendingResponses (client_callbacks s) \<noteq> 0 \<Longrightarrow> P s"
    and "\<And>s. pendingResponses (client_callbacks s) = 0 \<Longrightarrow> queue (requestQueue s) = [] \<Longrightarrow> P s"
    and "\<And>s item rest. pendingResponses (client_callbacks s) = 0 \<Longrightarrow> queue (requestQueue s) = item # rest \<Longrightarrow>
           P (sendRequest item (s\<lparr>requestQueue := (requestQueue s)\<lparr>queue := rest\<rparr>\<rparr>)) \<Longrightarrow> P s"
  shows "P s"
proof (induction s rule: sendNextRequests.induct)
  case (1 s)
  show ?case
  proof (cases "pendingResponses (client_callbacks s) = 0")
    case False
    then show ?thesis by (rule assms(1))
  next
    case True
    show ?thesis
    proof (cases "queue (requestQueue s)")
      case Nil
      with True show ?thesis by (rule assms(2))
    next
      case (Cons item rest)
      have "P (sendRequest item (s\<lparr>requestQueue := (requestQueue s)\<lparr>queue := rest\<rparr>\<rparr>))"
        using "1.IH" True Cons
        by (simp add: RequestQueue_length_def RequestQueue_shift_def)
      with True Cons show ?thesis by (rule assms(3))
    qed
  qed
qed

lemma settlements_update [simp]:
  "settlements (s\<lparr>requestQueue := q\<rparr>) = settlements s"
  "settlements (s\<lparr>client_callbacks := cm\<rparr>) = settlements s"
  "settlements (s\<lparr>reactions := rs\<rparr>) = settlements s"
  "settlements (s\<lparr>promises := n\<rparr>) = settlements s"
  by (simp_all add: settlements_def)

lemma sendNextRequests_settlements [simp]: "settlements (sendNextRequests s) = settlements s"
proof (induction s rule: sendNextRequests_induct)
  case (blocked s)
  then show ?case by (simp add: sendNextRequests_blocked)
next
  case (empty s)
  then show ?case by (simp add: sendNextRequests_empty)
next
  case (step s item rest)
  then show ?case by (simp add: sendNextRequests_Cons)
qed

lemma sendNextRequests_done:
  "pendingResponses (client_callbacks (sendNextRequests s)) \<noteq> 0 \<or> queue (requestQueue (sendNextRequests s)) = []"
proof (induction s rule: sendNextRequests_induct)
  case (blocked s)
  then show ?case by (simp add: sendNextRequests_blocked)
next
  case (empty s)
  then show ?case by (simp add: sendNextRequests_empty)
next
  case (step s item rest)
  then show ?case by (simp add: sendNextRequests_Cons)
qed

lemma dispatchable_simps:
  "dispatchable [] = []"
  "item_callbacks item = None \<Longrightarrow> dispatchable (item # rest) = item # dispatchable rest"
  "item_callbacks item = Some cb \<Longrightarrow> dispatchable (item # rest) = [item]"
  by (simp_all add: dispatchable_def)

lemma sendNextRequests_dispatches:
  "pendingResponses (client_callbacks s) = 0 \<Longrightarrow>
     map snd (reactions (sendNextRequests s)) =
       map snd (reactions s) @ map request (dispatchable (queue (requestQueue s)))
     \<and> queue (requestQueue (sendNextRequests s)) =
         drop (length (dispatchable (queue (requestQueue s)))) (queue (requestQueue s))
     \<and> sequenceNumber (requestQueue (sendNextRequests s)) = sequenceNumber (requestQueue s)"
proof (induction s rule: sendNextRequests_induct)
  case (blocked s)
  then show ?case by simp
next
  case (empty s)
  then show ?case by (simp add: sendNextRequests_empty dispatchable_simps)
next
  case (step s item rest)
  let ?s' = "sendRequest item (s\<lparr>requestQueue := (requestQueue s)\<lparr>queue := rest\<rparr>\<rparr>)"
  have unfold: "sendNextRequests s = sendNextRequests ?s'"
    using step.hyps by (rule sendNextRequests_Cons)
  show ?case
  proof (cases "item_callbacks item")
    case None
    then have "pendingResponses (client_callbacks ?s') = 0"
      using step.hyps by simp
    with step.IH None step.hyps(2) show ?thesis
      by (simp add: unfold dispatchable_simps)
  next
    case (Some cb)
    then have "pendingResponses (client_callbacks ?s') \<noteq> 0"
      using step.hyps by (simp add: CallbackMap_add_def)
    then have "sendNextRequests ?s' = ?s'"
      by (rule sendNextRequests_blocked)
    with Some step.hyps(2) show ?thesis
      by (simp add: unfold dispatchable_simps)
  qed
qed

lemma execute_blocked:
  "pendingResponses (client_callbacks s) \<noteq> 0 \<Longrightarrow>
   reactions (snd (execute cmd args expects now s)) = reactions s
   \<and> queue_seqs (snd (execute cmd args expects now s)) = queue_seqs s @ [sequenceNumber (requestQueue s)]"
  by (simp add: execute_def execute_enqueue_def Let_def sendNextRequests_blocked emit_def RequestQueue_push_def
      RequestQueue_createRequest_def queue_seqs_def split: option.splits)

lemma sendNextRequests_conserves:
  "map snd (reactions (sendNextRequests s)) @ map request (queue (requestQueue (sendNextRequests s)))
     = map snd (reactions s) @ map request (queue (requestQueue s))"
proof (induction s rule: sendNextRequests_induct)
  case (blocked s)
  then show ?case by (simp add: sendNextRequests_blocked)
next
  case (empty s)
  then show ?case by (simp add: sendNextRequests_empty)
next
  case (step s item rest)
  then show ?case by (simp add: sendNextRequests_Cons)
qed

lemma onRejected_absent:
  "map_of (callbacks (client_callbacks (sendRequest_onRejected err serverRequest s))) (seq serverRequest) = None"
  by (simp add: sendRequest_onRejected_def Let_def CallbackMap_fetch_def CallbackMap_delete_def emit_def
      split: option.splits)

lemma onRejected_live:
  "map_of (callbacks (client_callbacks s)) (seq serverRequest) = Some callback \<Longrightarrow>
   log_since s (sendRequest_onRejected err serverRequest s) = [Reject (e callback) err]
   \<and> pendingResponses (client_callbacks (sendRequest_onRejected err serverRequest s)) =
       pendingResponses (client_callbacks s) - 1"
  by (simp add: sendRequest_onRejected_def Let_def CallbackMap_fetch_def CallbackMap_delete_def emit_def
      log_since_def)

lemma sendRequest_registers:
  "item_callbacks item = Some callback \<Longrightarrow>
   map_of (callbacks (client_callbacks (sendRequest item s))) (seq (request item)) = Some callback
   \<and> pendingResponses (client_callbacks (sendRequest item s)) = pendingResponses (client_callbacks s) + 1"
  by (simp add: CallbackMap_add_def)

lemma sendRequest_unavailable:
  "servicePromise s = None \<Longrightarrow> lastError s = Some err \<Longrightarrow>
   reactions (sendRequest item s) = reactions s @ [(Promise_reject err, request item)]"
  by (simp add: sendRequest_def Let_def service_def emit_def split: option.splits)

lemma settle_last_rejected:
  "reactions s1 = rs @ [(Promise_reject err, serverRequest)] \<Longrightarrow>
   map_of (callbacks (client_callbacks s1)) (seq serverRequest) = Some callback \<Longrightarrow>
   log_since s1 (settle (length rs) out s1) = [Reject (e callback) err]
   \<and> map_of (callbacks (client_callbacks (settle (length rs) out s1))) (seq serverRequest) = None"
  by (simp add: settle_def Let_def nth_append sendRequest_onRejected_def CallbackMap_fetch_def
      CallbackMap_delete_def emit_def log_since_def)

section \<open>What each handler does to the queue and the registry\<close>

lemma tryCancelRequest_core:
  "requestQueue (snd (tryCancelRequest sq s)) = snd (RequestQueue_tryCancelPendingRequest sq (requestQueue s))"
  "client_callbacks (snd (tryCancelRequest sq s)) = CallbackMap_delete sq (client_callbacks s)"
  by (simp_all add: tryCancelRequest_def Let_def emit_def CallbackMap_fetch_def split: option.splits)

lemma dispatchEvent_core:
  "requestQueue (snd (dispatchEvent ev s)) = requestQueue s"
  "client_callbacks (snd (dispatchEvent ev s)) = client_callbacks s"
  by (simp_all add: dispatchEvent_def dispatchTelemetryEvent_def emit_def split: option.splits)

lemma dispatchMessage_try_core:
  "requestQueue (snd (dispatchMessage_try message s)) = requestQueue s"
  "client_callbacks (snd (dispatchMessage_try message s)) =
     (if type message = ''response'' then CallbackMap_delete (request_seq message) (client_callbacks s)
      else client_callbacks s)"
  by (simp_all add: dispatchMessage_try_def Let_def dispatchEvent_core emit_def CallbackMap_fetch_def
      split: option.splits)

lemma serviceExited_core:
  "requestQueue (serviceExited restart now now' s) = requestQueue s"
  "client_callbacks (serviceExited restart now now' s) = new_CallbackMap"
  by (simp_all add: serviceExited_def Let_def startService_def emit_def)

lemma onRejected_core:
  "requestQueue (sendRequest_onRejected err serverRequest s) = requestQueue s"
  "client_callbacks (sendRequest_onRejected err serverRequest s) =
     CallbackMap_delete (seq serverRequest) (client_callbacks s)"
  by (simp_all add: sendRequest_onRejected_def Let_def emit_def CallbackMap_fetch_def split: option.splits)

lemma settle_core:
  "requestQueue (settle i out s) = requestQueue s"
  "client_callbacks (settle i out s) = client_callbacks s
   \<or> (\<exists>k. client_callbacks (settle i out s) = CallbackMap_delete k (client_callbacks s))"
  by (auto simp add: settle_def Let_def onRejected_core sendRequest_onFulfilled_def emit_def
      split: thenable.splits outcome.splits option.splits)

lemma execute_enqueue_core:
  "client_callbacks (snd (execute_enqueue cmd args expects now s)) = client_callbacks s"
  "reactions (snd (execute_enqueue cmd args expects now s)) = reactions s"
  "sequenceNumber (requestQueue (snd (execute_enqueue cmd args expects now s))) = sequenceNumber (requestQueue s) + 1"
  "queue (requestQueue (snd (execute_enqueue cmd args expects now s))) =
     queue (requestQueue s) @
       [\<lparr>request = \<lparr>seq = sequenceNumber (requestQueue s), type = ''request'', command = cmd, arguments = args\<rparr>,
         promise = Some (fst (execute_enqueue cmd args expects now s)),
         item_callbacks = (if (case expects of Boolean b \<Rightarrow> b | _ \<Rightarrow> True)
                           then Some \<lparr>c = promises s, e = promises s, start = now\<rparr> else None)\<rparr>]"
  by (simp_all add: execute_enqueue_def Let_def emit_def RequestQueue_createRequest_def RequestQueue_push_def
      split: option.splits)

section \<open>Invariants of the reachable states\<close>

text \<open>In every state the client can reach, the sequence numbers in the registry and in the
  queue were issued by the current RequestQueue, each once, and the pending count is the
  number of registry entries.\<close>

lemma issued_once_cong:
  "requestQueue s' = requestQueue s \<Longrightarrow> client_callbacks s' = client_callbacks s \<Longrightarrow>
   issued_once s' = issued_once s"
  by (simp add: issued_once_def queue_seqs_def)

lemma issued_once_shrink:
  assumes "issued_once s"
    and "sequenceNumber (requestQueue s') = sequenceNumber (requestQueue s)"
    and "set (queue_seqs s') \<subseteq> set (queue_seqs s)" "distinct (queue_seqs s')"
    and "set (map fst (callbacks (client_callbacks s'))) \<subseteq> set (map fst (callbacks (client_callbacks s)))"
    and "distinct (map fst (callbacks (client_callbacks s')))"
    and "pendingResponses (client_callbacks s') = int (length (callbacks (client_callbacks s')))"
  shows "issued_once s'"
proof -
  from assms(1) have
    a: "\<forall>k\<in>set (map fst (callbacks (client_callbacks s))). k < sequenceNumber (requestQueue s)"
    and b: "\<forall>k\<in>set (queue_seqs s). k < sequenceNumber (requestQueue s)"
    and c: "set (map fst (callbacks (client_callbacks s))) \<inter> set (queue_seqs s) = {}"
    by (simp_all add: issued_once_def list_all_iff)
  from a assms(2,5) have a': "\<forall>k\<in>set (map fst (callbacks (client_callbacks s'))). k < sequenceNumber (requestQueue s')"
    by (metis subsetD)
  from b assms(2,3) have b': "\<forall>k\<in>set (queue_seqs s'). k < sequenceNumber (requestQueue s')"
    by auto
  from c assms(3,5) have c': "set (map fst (callbacks (client_callbacks s'))) \<inter> set (queue_seqs s') = {}"
    by blast
  from a' b' c' assms(4,6,7) show ?thesis
    by (simp add: issued_once_def list_all_iff)
qed

lemma issued_once_sendRequest:
  assumes "issued_once s" "queue (requestQueue s) = item # rest"
  shows "issued_once (sendRequest item (s\<lparr>requestQueue := (requestQueue s)\<lparr>queue := rest\<rparr>\<rparr>))"
proof (cases "item_callbacks item")
  case None
  with assms show ?thesis
    by (simp add: issued_once_def queue_seqs_def)
next
  case (Some cb)
  from assms have "seq (request item) \<notin> fst ` set (callbacks (client_callbacks s))"
    by (auto simp: issued_once_def queue_seqs_def)
  then have "AList.update (seq (request item)) cb (callbacks (client_callbacks s))
      = callbacks (client_callbacks s) @ [(seq (request item), cb)]"
    by (rule update_absent)
  with assms Some show ?thesis
    by (simp add: issued_once_def queue_seqs_def CallbackMap_add_def)
qed

lemma issued_once_sendNextRequests: "issued_once s \<Longrightarrow> issued_once (sendNextRequests s)"
proof (induction s rule: sendNextRequests_induct)
  case (blocked s)
  then show ?case by (simp add: sendNextRequests_blocked)
next
  case (empty s)
  then show ?case by (simp add: sendNextRequests_empty)
next
  case (step s item rest)
  from step.prems step.hyps(2)
  have "issued_once (sendRequest item (s\<lparr>requestQueue := (requestQueue s)\<lparr>queue := rest\<rparr>\<rparr>))"
    by (rule issued_once_sendRequest)
  with step.IH show ?case
    by (simp add: sendNextRequests_Cons[OF step.hyps])
qed

lemma issued_once_delete:
  assumes "issued_once s" "requestQueue s' = requestQueue s"
    "client_callbacks s' = CallbackMap_delete k (client_callbacks s)"
  shows "issued_once s'"
proof (cases "map_of (callbacks (client_callbacks s)) k")
  case None
  with assms(3) have "client_callbacks s' = client_callbacks s"
    by (simp add: CallbackMap_delete_def)
  with assms(1,2) issued_once_cong[of s' s] show ?thesis
    by simp
next
  case (Some cb)
  let ?al = "callbacks (client_callbacks s)"
  from assms(1) have d: "distinct (map fst ?al)" and n: "pendingResponses (client_callbacks s) = int (length ?al)"
    by (simp_all add: issued_once_def)
  from Some have "k \<in> fst ` set ?al"
    by (metis map_of_eq_None_iff option.distinct(1))
  with d have l: "Suc (length (AList.delete k ?al)) = length ?al"
    by (rule length_delete_distinct)
  from Some assms(3) have al': "callbacks (client_callbacks s') = AList.delete k ?al"
    and n': "pendingResponses (client_callbacks s') = pendingResponses (client_callbacks s) - 1"
    by (simp_all add: CallbackMap_delete_def)
  from n n' l have count: "pendingResponses (client_callbacks s') = int (length (AList.delete k ?al))"
    by linarith
  show ?thesis
  proof (rule issued_once_shrink[OF assms(1)])
    show "sequenceNumber (requestQueue s') = sequenceNumber (requestQueue s)"
      by (simp add: assms(2))
    show "set (queue_seqs s') \<subseteq> set (queue_seqs s)"
      by (simp add: queue_seqs_def assms(2))
    show "distinct (queue_seqs s')"
      using assms(1) by (simp add: queue_seqs_def assms(2) issued_once_def)
    show "set (map fst (callbacks (client_callbacks s'))) \<subseteq> set (map fst ?al)"
      by (simp add: al' delete_keys)
    show "distinct (map fst (callbacks (client_callbacks s')))"
      using d by (simp add: al' delete_keys distinct_removeAll)
    show "pendingResponses (client_callbacks s') = int (length (callbacks (client_callbacks s')))"
      by (simp add: count al')
  qed
qed

lemma issued_once_cancel_queue:
  assumes "issued_once s" "client_callbacks s' = client_callbacks s"
    "requestQueue s' = snd (RequestQueue_tryCancelPendingRequest k (requestQueue s))"
  shows "issued_once s'"
proof (rule issued_once_shrink[OF assms(1)])
  have q: "queue_seqs s' = remove1 k (queue_seqs s)"
    by (simp add: queue_seqs_def assms(3) RequestQueue_tryCancelPendingRequest_def splice_first_seqs)
  show "sequenceNumber (requestQueue s') = sequenceNumber (requestQueue s)"
    by (simp add: assms(3) RequestQueue_tryCancelPendingRequest_def)
  show "set (queue_seqs s') \<subseteq> set (queue_seqs s)"
    by (simp add: q set_remove1_subset)
  show "distinct (queue_seqs s')"
    using assms(1) by (simp add: q issued_once_def)
  show "set (map fst (callbacks (client_callbacks s'))) \<subseteq> set (map fst (callbacks (client_callbacks s)))"
    by (simp add: assms(2))
  show "distinct (map fst (callbacks (client_callbacks s')))"
    using assms(1) by (simp add: assms(2) issued_once_def)
  show "pendingResponses (client_callbacks s') = int (length (callbacks (client_callbacks s')))"
    using assms(1) by (simp add: assms(2) issued_once_def)
qed

lemma issued_once_tryCancelRequest: "issued_once s \<Longrightarrow> issued_once (snd (tryCancelRequest sq s))"
proof -
  assume a: "issued_once s"
  let ?s1 = "s\<lparr>requestQueue := snd (RequestQueue_tryCancelPendingRequest sq (requestQueue s))\<rparr>"
  have "issued_once ?s1"
    using a by (rule issued_once_cancel_queue) simp_all
  then show ?thesis
    by (rule issued_once_delete) (simp_all add: tryCancelRequest_core)
qed

lemma issued_once_dispatchMessage: "issued_once s \<Longrightarrow> issued_once (snd (dispatchMessage message s))"
proof -
  assume a: "issued_once s"
  have "issued_once (snd (dispatchMessage_try message s))"
  proof (cases "type message = ''response''")
    case True
    from a show ?thesis
      by (rule issued_once_delete) (simp_all add: dispatchMessage_try_core True)
  next
    case False
    then have "issued_once (snd (dispatchMessage_try message s)) = issued_once s"
      by (simp add: issued_once_def queue_seqs_def dispatchMessage_try_core)
    with a show ?thesis by simp
  qed
  then show ?thesis
    by (simp add: dispatchMessage_def issued_once_sendNextRequests)
qed

lemma issued_once_execute: "issued_once s \<Longrightarrow> issued_once (snd (execute cmd args expects now s))"
proof -
  assume a: "issued_once s"
  let ?s3 = "snd (execute_enqueue cmd args expects now s)"
  from a have "\<forall>k\<in>set (queue_seqs s). k < sequenceNumber (requestQueue s)"
    by (simp add: issued_once_def list_all_iff)
  then have fresh: "sequenceNumber (requestQueue s) \<notin> set (queue_seqs s)"
    by auto
  from a have "\<forall>k\<in>set (map fst (callbacks (client_callbacks s))). k < sequenceNumber (requestQueue s)"
    by (simp add: issued_once_def list_all_iff)
  then have fresh': "sequenceNumber (requestQueue s) \<notin> set (map fst (callbacks (client_callbacks s)))"
    by auto
  have q: "queue_seqs ?s3 = queue_seqs s @ [sequenceNumber (requestQueue s)]"
    by (simp add: queue_seqs_def execute_enqueue_core)
  have "list_all (\<lambda>k. k < Suc (sequenceNumber (requestQueue s))) (map fst (callbacks (client_callbacks s)))"
    using a by (simp add: issued_once_def list_all_iff less_Suc_eq)
  moreover have "list_all (\<lambda>k. k < Suc (sequenceNumber (requestQueue s))) (queue_seqs s)"
    using a by (simp add: issued_once_def list_all_iff less_Suc_eq)
  moreover have "distinct (map fst (callbacks (client_callbacks s)) @ queue_seqs s @ [sequenceNumber (requestQueue s)])"
    using a fresh fresh' by (simp add: issued_once_def)
  ultimately have "issued_once ?s3"
    using a by (simp add: issued_once_def q execute_enqueue_core)
  then show ?thesis
    by (simp add: execute_def issued_once_sendNextRequests)
qed

lemma issued_once_serviceExited: "issued_once s \<Longrightarrow> issued_once (serviceExited restart now now' s)"
  by (simp add: issued_once_def queue_seqs_def serviceExited_core new_CallbackMap_def)

lemma issued_once_settle: "issued_once s \<Longrightarrow> issued_once (settle i out s)"
proof -
  assume a: "issued_once s"
  from settle_core(2)[of i out s] show ?thesis
  proof
    assume "client_callbacks (settle i out s) = client_callbacks s"
    then have "issued_once (settle i out s) = issued_once s"
      by (simp add: issued_once_def queue_seqs_def settle_core(1))
    with a show ?thesis by simp
  next
    assume "\<exists>k. client_callbacks (settle i out s) = CallbackMap_delete k (client_callbacks s)"
    then obtain k where k: "client_callbacks (settle i out s) = CallbackMap_delete k (client_callbacks s)" ..
    show ?thesis
      by (rule issued_once_delete[OF a settle_core(1) k])
  qed
qed

lemma issued_once_serviceStarted:
  "issued_once s \<Longrightarrow> issued_once (serviceStarted resendModels now now' s)"
proof -
  assume "issued_once s"
  then have 1: "issued_once (snd (execute ''configure'' ''{hostInfo:vscode}'' Undefined now s))"
    by (rule issued_once_execute)
  have "issued_once (setCompilerOptionsForInferredProjects now' t)" if "issued_once t" for t
    using that by (simp add: setCompilerOptionsForInferredProjects_def issued_once_execute)
  with 1 have "issued_once (setCompilerOptionsForInferredProjects now'
      (snd (execute ''configure'' ''{hostInfo:vscode}'' Undefined now s)))"
    by blast
  then show ?thesis
    by (simp add: serviceStarted_def Let_def issued_once_def queue_seqs_def emit_def)
qed

lemma issued_once_step: "issued_once s \<Longrightarrow> issued_once (step ev s)"
proof (cases ev)
  case (Execute cmd args expects now)
  then show ?thesis if "issued_once s" using that by (simp add: issued_once_execute)
next
  case (Cancel sq)
  then show ?thesis if "issued_once s" using that by (simp add: issued_once_tryCancelRequest)
next
  case (Receive message)
  then show ?thesis if "issued_once s" using that by (simp add: issued_once_dispatchMessage)
next
  case (ChildExit code now now')
  have "issued_once (case code of None \<Rightarrow> s | Some n \<Rightarrow> emit [LogTelemetry ''tsserver.exitWithCode''] s)"
    if "issued_once s"
    using that by (simp add: issued_once_def queue_seqs_def emit_def split: option.splits)
  then have "issued_once (serviceExited (\<not> isRestarting s) now now'
        (case code of None \<Rightarrow> s | Some n \<Rightarrow> emit [LogTelemetry ''tsserver.exitWithCode''] s))"
    if "issued_once s"
    using that by (simp add: issued_once_serviceExited)
  with ChildExit show ?thesis if "issued_once s"
    using that by (simp add: issued_once_def queue_seqs_def)
next
  case (ChildError err now now')
  have "issued_once (emit [LogTelemetry ''tsserver.error''] (s\<lparr>lastError := Some err\<rparr>))" if "issued_once s"
    using that by (simp add: issued_once_def queue_seqs_def emit_def)
  with ChildError show ?thesis if "issued_once s"
    using that by (simp add: issued_once_serviceExited)
next
  case (Settle i out)
  then show ?thesis if "issued_once s" using that by (simp add: issued_once_settle)
next
  case (RestartTsServer p)
  then show ?thesis if "issued_once s"
    using that
    by (simp add: issued_once_def queue_seqs_def restartTsServer_def restartTsServer_start_def
        startService_def emit_def split: option.splits)
next
  case Kill
  then show ?thesis if "issued_once s"
    using that by (simp add: issued_once_def queue_seqs_def restartTsServer_kill_def)
next
  case (Start p)
  then show ?thesis if "issued_once s"
    using that
    by (simp add: issued_once_def queue_seqs_def restartTsServer_start_def startService_def emit_def)
next
  case (Spawn p missing version pipe logFile)
  then show ?thesis
    by (simp add: issued_once_def queue_seqs_def startService_executor_def Let_def new_RequestQueue_def
        new_CallbackMap_def)
next
  case (NoServer p dir)
  then show ?thesis if "issued_once s"
    using that by (simp add: issued_once_def queue_seqs_def startService_rejected_def emit_def)
next
  case (Forked started resendModels now now')
  have "issued_once (emit [OnReadyResolve, OnTsServerStartedFire] (s\<lparr>lastStart := started\<rparr>))"
    if "issued_once s"
    using that by (simp add: issued_once_def queue_seqs_def emit_def)
  with Forked show ?thesis if "issued_once s"
    using that by (simp add: startService_forked_def issued_once_serviceStarted)
next
  case (ForkFailed err)
  then show ?thesis if "issued_once s"
    using that by (simp add: issued_once_def queue_seqs_def startService_forkFailed_def emit_def)
qed

lemma issued_once_run: "issued_once s \<Longrightarrow> issued_once (run evs s)"
  by (induction evs arbitrary: s) (simp_all add: issued_once_step)

lemma issued_once_new: "issued_once (new_TypeScriptServiceClient now)"
  by (simp add: issued_once_def queue_seqs_def new_TypeScriptServiceClient_def startService_def emit_def
      new_RequestQueue_def new_CallbackMap_def)

lemma issued_once_reachable: "issued_once (run evs (new_TypeScriptServiceClient now))"
  by (simp add: issued_once_run issued_once_new)

text \<open>A sequence number under which nothing is registered and whose queued requests carry
  no callbacks stays unregistered for the rest of the session.\<close>

lemma never_registered_delete:
  assumes "never_registered n s" "requestQueue s' = requestQueue s"
    "client_callbacks s' = CallbackMap_delete k (client_callbacks s)"
  shows "never_registered n s'"
  using assms by (simp add: never_registered_def CallbackMap_delete_def delete_conv')

lemma never_registered_sendRequest:
  assumes "never_registered n s" "queue (requestQueue s) = item # rest"
  shows "never_registered n (sendRequest item (s\<lparr>requestQueue := (requestQueue s)\<lparr>queue := rest\<rparr>\<rparr>))"
proof (cases "item_callbacks item")
  case None
  with assms show ?thesis by (simp add: never_registered_def)
next
  case (Some cb)
  with assms have "seq (request item) \<noteq> n" by (simp add: never_registered_def)
  with assms Some show ?thesis
    by (simp add: never_registered_def CallbackMap_add_def update_conv')
qed

lemma never_registered_sendNextRequests:
  "never_registered n s \<Longrightarrow> never_registered n (sendNextRequests s)"
proof (induction s rule: sendNextRequests_induct)
  case (blocked s)
  then show ?case by (simp add: sendNextRequests_blocked)
next
  case (empty s)
  then show ?case by (simp add: sendNextRequests_empty)
next
  case (step s item rest)
  from step.prems step.hyps(2)
  have "never_registered n (sendRequest item (s\<lparr>requestQueue := (requestQueue s)\<lparr>queue := rest\<rparr>\<rparr>))"
    by (rule never_registered_sendRequest)
  with step.IH show ?case
    by (simp add: sendNextRequests_Cons[OF step.hyps])
qed

lemma never_registered_execute:
  "never_registered n s \<Longrightarrow> never_registered n (snd (execute cmd args expects now s))"
proof -
  assume a: "never_registered n s"
  then have "never_registered n (snd (execute_enqueue cmd args expects now s))"
    by (simp add: never_registered_def execute_enqueue_core)
  then show ?thesis
    by (simp add: execute_def never_registered_sendNextRequests)
qed

lemma never_registered_tryCancelRequest:
  "never_registered n s \<Longrightarrow> never_registered n (snd (tryCancelRequest sq s))"
proof -
  assume a: "never_registered n s"
  let ?s1 = "s\<lparr>requestQueue := snd (RequestQueue_tryCancelPendingRequest sq (requestQueue s))\<rparr>"
  have "set (snd (splice_first sq (queue (requestQueue s)))) \<subseteq> set (queue (requestQueue s))"
    by (rule splice_first_subset)
  with a have "never_registered n ?s1"
    by (auto simp add: never_registered_def RequestQueue_tryCancelPendingRequest_def list_all_iff)
  then show ?thesis
    by (rule never_registered_delete) (simp_all add: tryCancelRequest_core)
qed

lemma never_registered_dispatchMessage:
  "never_registered n s \<Longrightarrow> never_registered n (snd (dispatchMessage message s))"
proof -
  assume a: "never_registered n s"
  have "never_registered n (snd (dispatchMessage_try message s))"
  proof (cases "type message = ''response''")
    case True
    from a show ?thesis
      by (rule never_registered_delete) (simp_all add: dispatchMessage_try_core True)
  next
    case False
    with a show ?thesis
      by (simp add: never_registered_def dispatchMessage_try_core)
  qed
  then show ?thesis
    by (simp add: dispatchMessage_def never_registered_sendNextRequests)
qed

lemma never_registered_serviceExited:
  "never_registered n s \<Longrightarrow> never_registered n (serviceExited restart now now' s)"
  by (simp add: never_registered_def serviceExited_core new_CallbackMap_def)

lemma never_registered_settle: "never_registered n s \<Longrightarrow> never_registered n (settle i out s)"
proof -
  assume a: "never_registered n s"
  from settle_core(2)[of i out s] show ?thesis
  proof
    assume "client_callbacks (settle i out s) = client_callbacks s"
    with a show ?thesis
      by (simp add: never_registered_def settle_core(1))
  next
    assume "\<exists>k. client_callbacks (settle i out s) = CallbackMap_delete k (client_callbacks s)"
    then obtain k where k: "client_callbacks (settle i out s) = CallbackMap_delete k (client_callbacks s)" ..
    show ?thesis
      by (rule never_registered_delete[OF a settle_core(1) k])
  qed
qed

lemma never_registered_serviceStarted:
  "never_registered n s \<Longrightarrow> never_registered n (serviceStarted resendModels now now' s)"
proof -
  assume "never_registered n s"
  then have 1: "never_registered n (snd (execute ''configure'' ''{hostInfo:vscode}'' Undefined now s))"
    by (rule never_registered_execute)
  have "never_registered n (setCompilerOptionsForInferredProjects now' t)" if "never_registered n t" for t
    using that by (simp add: setCompilerOptionsForInferredProjects_def never_registered_execute)
  with 1 have "never_registered n (setCompilerOptionsForInferredProjects now'
      (snd (execute ''configure'' ''{hostInfo:vscode}'' Undefined now s)))"
    by blast
  then show ?thesis
    by (simp add: serviceStarted_def Let_def never_registered_def emit_def)
qed

lemma never_registered_step:
  "never_registered n s \<Longrightarrow> \<not> starts_session ev \<Longrightarrow> never_registered n (step ev s)"
proof (cases ev)
  case (Execute cmd args expects now)
  then show ?thesis if "never_registered n s" using that by (simp add: never_registered_execute)
next
  case (Cancel sq)
  then show ?thesis if "never_registered n s" using that by (simp add: never_registered_tryCancelRequest)
next
  case (Receive message)
  then show ?thesis if "never_registered n s" using that by (simp add: never_registered_dispatchMessage)
next
  case (ChildExit code now now')
  have "never_registered n (case code of None \<Rightarrow> s | Some m \<Rightarrow> emit [LogTelemetry ''tsserver.exitWithCode''] s)"
    if "never_registered n s"
    using that by (simp add: never_registered_def emit_def split: option.splits)
  then have "never_registered n (serviceExited (\<not> isRestarting s) now now'
        (case code of None \<Rightarrow> s | Some m \<Rightarrow> emit [LogTelemetry ''tsserver.exitWithCode''] s))"
    if "never_registered n s"
    using that by (simp add: never_registered_serviceExited)
  with ChildExit show ?thesis if "never_registered n s"
    using that by (simp add: never_registered_def)
next
  case (ChildError err now now')
  have "never_registered n (emit [LogTelemetry ''tsserver.error''] (s\<lparr>lastError := Some err\<rparr>))"
    if "never_registered n s"
    using that by (simp add: never_registered_def emit_def)
  with ChildError show ?thesis if "never_registered n s"
    using that by (simp add: never_registered_serviceExited)
next
  case (Settle i out)
  then show ?thesis if "never_registered n s" using that by (simp add: never_registered_settle)
next
  case (RestartTsServer p)
  then show ?thesis if "never_registered n s"
    using that
    by (simp add: never_registered_def restartTsServer_def restartTsServer_start_def
        startService_def emit_def split: option.splits)
next
  case Kill
  then show ?thesis if "never_registered n s"
    using that by (simp add: never_registered_def restartTsServer_kill_def)
next
  case (Start p)
  then show ?thesis if "never_registered n s"
    using that by (simp add: never_registered_def restartTsServer_start_def startService_def emit_def)
next
  case (Spawn p missing version pipe logFile)
  then show ?thesis if "\<not> starts_session ev" using that by simp
next
  case (NoServer p dir)
  then show ?thesis if "never_registered n s"
    using that by (simp add: never_registered_def startService_rejected_def emit_def)
next
  case (Forked started resendModels now now')
  have "never_registered n (emit [OnReadyResolve, OnTsServerStartedFire] (s\<lparr>lastStart := started\<rparr>))"
    if "never_registered n s"
    using that by (simp add: never_registered_def emit_def)
  with Forked show ?thesis if "never_registered n s"
    using that by (simp add: startService_forked_def never_registered_serviceStarted)
next
  case (ForkFailed err)
  then show ?thesis if "never_registered n s"
    using that by (simp add: never_registered_def startService_forkFailed_def emit_def)
qed

lemma never_registered_run:
  "never_registered n s \<Longrightarrow> in_session evs \<Longrightarrow> never_registered n (run evs s)"
proof (induction evs arbitrary: s)
  case Nil
  then show ?case by simp
next
  case (Cons ev evs)
  from Cons.prems(2) have ev: "\<not> starts_session ev" and evs: "in_session evs"
    by (auto simp: in_session_def split: if_splits)
  from Cons.prems(1) ev have "never_registered n (step ev s)"
    by (rule never_registered_step)
  with evs Cons.IH show ?case by simp
qed

lemma never_registered_fire_and_forget:
  assumes "issued_once s"
  shows "never_registered (sequenceNumber (requestQueue s)) (snd (execute cmd args (Boolean False) now s))"
proof -
  let ?n = "sequenceNumber (requestQueue s)"
  from assms have k: "\<forall>k\<in>fst ` set (callbacks (client_callbacks s)). k < ?n"
    and q: "\<forall>item\<in>set (queue (requestQueue s)). seq (request item) < ?n"
    by (simp_all add: issued_once_def queue_seqs_def list_all_iff)
  from k have "?n \<notin> fst ` set (callbacks (client_callbacks s))" by auto
  then have absent: "map_of (callbacks (client_callbacks s)) ?n = None"
    by (simp add: map_of_eq_None_iff)
  from q have old: "\<forall>item\<in>set (queue (requestQueue s)). seq (request item) \<noteq> ?n" by auto
  from absent old have "never_registered ?n (snd (execute_enqueue cmd args (Boolean False) now s))"
    by (simp add: never_registered_def execute_enqueue_core list_all_iff)
  then show ?thesis
    by (simp add: execute_def never_registered_sendNextRequests)
qed

section \<open>The claims\<close>

subsection \<open>C1: single-flight dispatch\<close>

text \<open>
  C1, amended. A request is handed to the worker by \<open>sendRequest\<close>, which registers its
  callbacks and attaches the write to the service promise; \<open>sendNextRequests\<close> is its only
  caller. While the pending count is not zero the loop dispatches nothing, whether the
  head of the queue is result-bearing or fire-and-forget, and \<open>execute\<close> only appends the
  new request to the queue. When the count is zero, one run of the loop dispatches, in
  queue order, the requests without callbacks at the head of the queue and the first
  request with callbacks, and leaves the rest queued: at most one result-bearing request
  per run, and nothing after it. Sending a request without callbacks leaves the count as
  it is.
\<close>

theorem dispatch_gate:
  "(pendingResponses (client_callbacks s) \<noteq> 0 \<longrightarrow>
      sendNextRequests s = s
      \<and> reactions (snd (execute cmd args expects now s)) = reactions s
      \<and> queue_seqs (snd (execute cmd args expects now s)) = queue_seqs s @ [sequenceNumber (requestQueue s)])
   \<and> (pendingResponses (client_callbacks s) = 0 \<longrightarrow>
        map snd (reactions (sendNextRequests s)) =
          map snd (reactions s) @ map request (dispatchable (queue (requestQueue s)))
        \<and> queue (requestQueue (sendNextRequests s)) =
            drop (length (dispatchable (queue (requestQueue s)))) (queue (requestQueue s)))
   \<and> length (filter (\<lambda>item. item_callbacks item \<noteq> None) (dispatchable items)) \<le> 1
   \<and> (item_callbacks item = None \<longrightarrow>
        pendingResponses (client_callbacks (sendRequest item s)) = pendingResponses (client_callbacks s))"
proof -
  have "length (filter (\<lambda>item. item_callbacks item \<noteq> None) (dispatchable items)) \<le> 1"
    by (induction items) (auto simp: dispatchable_def)
  then show ?thesis
    using sendNextRequests_dispatches[of s] execute_blocked[of s cmd args expects now]
    by (simp add: sendNextRequests_blocked)
qed

text \<open>
  C1, witness. With request 2 pending, four more requests are queued and a run of the
  loop changes nothing. Once the response to request 2 has been taken from the registry,
  the loop dispatches the fire-and-forget requests 3 and 4 and the result-bearing request
  5, and leaves request 6 queued. Sending the fire-and-forget request at the head of the
  queue leaves the count at 1.
\<close>

theorem dispatch_gate_witness:
  "pendingResponses (client_callbacks busy_client) \<noteq> 0
   \<and> sendNextRequests busy_client = busy_client
   \<and> pendingResponses (client_callbacks freed_client) = 0
   \<and> map seq (map snd (reactions (sendNextRequests freed_client))) = [2, 3, 4, 5]
   \<and> map seq (map request (queue (requestQueue (sendNextRequests freed_client)))) = [6]
   \<and> item_callbacks (hd (queue (requestQueue busy_client))) = None
   \<and> pendingResponses (client_callbacks (sendRequest (hd (queue (requestQueue busy_client))) busy_client)) = 1"
proof -
  have busy: "pendingResponses (client_callbacks busy_client) \<noteq> 0"
    by code_simp
  have one: "pendingResponses (client_callbacks busy_client) = 1"
    by code_simp
  have free: "pendingResponses (client_callbacks freed_client) = 0"
    by code_simp
  have head: "item_callbacks (hd (queue (requestQueue busy_client))) = None"
    by code_simp
  have stay: "sendNextRequests busy_client = busy_client"
    using dispatch_gate [of busy_client] busy by blast
  have same: "pendingResponses (client_callbacks (sendRequest (hd (queue (requestQueue busy_client))) busy_client))
      = pendingResponses (client_callbacks busy_client)"
    using dispatch_gate [of busy_client _ _ _ _ _ "hd (queue (requestQueue busy_client))"] head by blast
  have sent: "map snd (reactions (sendNextRequests freed_client)) =
      map snd (reactions freed_client) @ map request (dispatchable (queue (requestQueue freed_client)))"
    and left: "queue (requestQueue (sendNextRequests freed_client)) =
      drop (length (dispatchable (queue (requestQueue freed_client)))) (queue (requestQueue freed_client))"
    using dispatch_gate [of freed_client] free by blast+
  have sent_seqs: "map seq (map snd (reactions freed_client)
      @ map request (dispatchable (queue (requestQueue freed_client)))) = [2, 3, 4, 5]"
    by code_simp
  have left_seqs: "map seq (map request
      (drop (length (dispatchable (queue (requestQueue freed_client)))) (queue (requestQueue freed_client)))) = [6]"
    by code_simp
  have 1: "map seq (map snd (reactions (sendNextRequests freed_client))) = [2, 3, 4, 5]"
    unfolding sent by (rule sent_seqs)
  have 2: "map seq (map request (queue (requestQueue (sendNextRequests freed_client)))) = [6]"
    unfolding left by (rule left_seqs)
  from busy stay free 1 2 head same one show ?thesis by simp
qed

text \<open>
  C1, as the claim states it, fails in its second part. With the result-bearing request 2
  pending, the fire-and-forget request 3 is executed: it stays in the queue, no write is
  attached for it (the only reaction is that of request 2), and a further run of the
  loop changes nothing.
\<close>

theorem fire_and_forget_waits_behind_pending:
  "pendingResponses (client_callbacks gated_client) = 1
   \<and> map (\<lambda>item. (seq (request item), item_callbacks item)) (queue (requestQueue gated_client)) = [(3, None)]
   \<and> map seq (map snd (reactions gated_client)) = [2]
   \<and> sendNextRequests gated_client = gated_client"
  by code_simp

subsection \<open>C2: the crash-loop breaker\<close>

text \<open>
  C2. \<open>serviceExited(true)\<close> (an exit that was not asked for) increments the restart
  counter and resets it to 0 when it then exceeds 5. It calls \<open>startService(true)\<close> unless
  the counter exceeded 5 and less than 10 seconds have passed since \<open>lastStart\<close>; exactly in
  that case it shows the error message. It shows the warning exactly when the counter
  exceeded 5 and at least 10 but less than 60 seconds have passed; with 60 seconds or
  more, or a counter of at most 5, it restarts and shows nothing.
  \<open>serviceExited(false)\<close> leaves the counter alone and does not restart.
\<close>

theorem crash_loop_breaker:
  "numberRestarts (serviceExited True now now' s) = (if numberRestarts s + 1 > 5 then 0 else numberRestarts s + 1)
   \<and> (StartService True \<in> set (log_since s (serviceExited True now now' s)))
        = (\<not> (numberRestarts s + 1 > 5 \<and> now - lastStart s < 10 * 1000))
   \<and> (filter is_fatal (log_since s (serviceExited True now now' s)) \<noteq> [])
        = (numberRestarts s + 1 > 5 \<and> now - lastStart s < 10 * 1000)
   \<and> (filter is_warning (log_since s (serviceExited True now now' s)) \<noteq> [])
        = (numberRestarts s + 1 > 5 \<and> 10 * 1000 \<le> now - lastStart s \<and> now - lastStart s < 60 * 1000)
   \<and> numberRestarts (serviceExited False now now' s) = numberRestarts s
   \<and> StartService True \<notin> set (log_since s (serviceExited False now now' s))"
  by (auto simp add: serviceExited_def Let_def startService_def emit_def log_since_def CallbackMap_destroy_def
      filter_empty_conv)

text \<open>
  The breaker on a run: the worker exits six times, each time half a second after its
  start. The first five exits restart it; the sixth shows the error message, resets the
  counter and leaves the client without a service.
\<close>

lemma six_fast_crashes_stop_the_service:
  "numberRestarts (run crash_events (new_TypeScriptServiceClient 0)) = 0
   \<and> servicePromise (run crash_events (new_TypeScriptServiceClient 0)) = None
   \<and> length (filter (\<lambda>x. x = StartService True) (effects (run crash_events (new_TypeScriptServiceClient 0)))) = 5
   \<and> length (filter is_fatal (effects (run crash_events (new_TypeScriptServiceClient 0)))) = 1
   \<and> is_fatal (last (butlast (effects (run crash_events (new_TypeScriptServiceClient 0)))))"
  by code_simp

subsection \<open>C3: teardown\<close>

text \<open>
  What \<open>serviceExited\<close> does to the registry it finds. It rejects every entry, in the
  order of the map, with \<open>Error('Service died.')\<close> and then installs a new, empty
  CallbackMap with pending count 0; \<open>destroy\<close> does so for any reason it is given. Both
  the \<open>exit\<close> and the \<open>error\<close> handler of the child process go through it.
\<close>

lemma teardown_rejects_all:
  "client_callbacks (serviceExited restart now now' s) = new_CallbackMap
   \<and> callbacks new_CallbackMap = [] \<and> pendingResponses new_CallbackMap = 0
   \<and> take (length (callbacks (client_callbacks s))) (log_since s (serviceExited restart now now' s)) =
       map (\<lambda>callback. Reject (e callback) (Error ''Service died.'')) (map snd (callbacks (client_callbacks s)))
   \<and> client_callbacks (step (ChildExit code now now') s) = new_CallbackMap
   \<and> client_callbacks (step (ChildError err now now') s) = new_CallbackMap
   \<and> set (map (\<lambda>callback. Reject (e callback) (Error ''Service died.'')) (map snd (callbacks (client_callbacks s))))
        \<subseteq> set (effects (step (ChildExit code now now') s)) \<inter> set (effects (step (ChildError err now now') s))
   \<and> CallbackMap_destroy why cm =
        (map (\<lambda>callback. Reject (e callback) why) (map snd (callbacks cm)), new_CallbackMap)"
proof -
  have 1: "take (length (callbacks (client_callbacks s))) (log_since s (serviceExited restart now now' s)) =
       map (\<lambda>callback. Reject (e callback) (Error ''Service died.'')) (map snd (callbacks (client_callbacks s)))"
    by (simp add: log_since_def serviceExited_def Let_def startService_def emit_def CallbackMap_destroy_def)
  have 2: "set (map (\<lambda>callback. Reject (e callback) (Error ''Service died.'')) (map snd (callbacks (client_callbacks s))))
        \<subseteq> set (effects (step (ChildExit code now now') s))"
    by (auto simp add: serviceExited_def Let_def startService_def emit_def CallbackMap_destroy_def
        split: option.splits)
  have 3: "set (map (\<lambda>callback. Reject (e callback) (Error ''Service died.'')) (map snd (callbacks (client_callbacks s))))
        \<subseteq> set (effects (step (ChildError err now now') s))"
    by (auto simp add: serviceExited_def Let_def startService_def emit_def CallbackMap_destroy_def)
  have 4: "CallbackMap_destroy why cm =
        (map (\<lambda>callback. Reject (e callback) why) (map snd (callbacks cm)), new_CallbackMap)"
    by (simp add: CallbackMap_destroy_def new_CallbackMap_def)
  have 5: "callbacks new_CallbackMap = [] \<and> pendingResponses new_CallbackMap = 0"
    by (simp add: new_CallbackMap_def)
  from 1 2 3 4 5 show ?thesis
    by (simp add: serviceExited_core)
qed

text \<open>
  C3 at two inputs where the code departs from it: calls are left unresolved by a
  teardown.

  The worker exits while request 2 is registered and request 5, result-bearing with the
  callbacks of promise 3, is queued. \<open>serviceExited\<close> rejects promise 2 and restarts; the
  executor of the next session installs a new RequestQueue, and the callbacks of promise 3
  are gone with the old one: promises 0, 1 and 2 are settled, 3 is not, and neither the
  queue nor the registry holds callbacks any more.

  \<open>restartTsServer\<close> is called while request 2, written to the worker, is registered with
  the callbacks of promise 2. The executor of the new session installs a new CallbackMap
  without \<open>destroy\<close> before the \<open>exit\<close> event of the killed worker arrives, so
  \<open>serviceExited\<close> finds an empty registry: promise 2 is never settled.
\<close>

theorem teardown_leaves_calls_unresolved:
  "callbacks (client_callbacks busy_client) = [(2, \<lparr>c = 2, e = 2, start = 1\<rparr>)]
   \<and> map (\<lambda>item. (seq (request item), promise item, item_callbacks item))
        (filter (\<lambda>item. item_callbacks item \<noteq> None) (queue (requestQueue busy_client)))
       = [(5, Some (Created 3), Some \<lparr>c = 3, e = 3, start = 4\<rparr>)]
   \<and> settled_promises torn_down_client = [0, 1, 2]
   \<and> queue (requestQueue torn_down_client) = []
   \<and> callbacks (client_callbacks torn_down_client) = []
   \<and> callbacks (client_callbacks running_client) = [(2, \<lparr>c = 2, e = 2, start = 1\<rparr>)]
   \<and> settled_promises restarted_client = [0, 1]
   \<and> queue (requestQueue restarted_client) = []
   \<and> callbacks (client_callbacks restarted_client) = []"
  by code_simp

subsection \<open>C4: a message of unknown type\<close>

text \<open>
  C4, amended. For a message whose type is neither \<open>response\<close> nor \<open>event\<close>,
  \<open>dispatchMessage\<close> settles no promise, forwards no event and writes no log entry; its
  \<open>finally\<close> block runs the dispatch loop, and then the exception
  \<open>Error('Unknown message type ... recevied')\<close> leaves the method towards its caller.
  For every message, of any type, the state after \<open>dispatchMessage\<close> is that of the
  \<open>try\<close> block followed by the dispatch loop, which has run to its end: a response is
  pending or the queue is empty.
\<close>

theorem unknown_message_type:
  "(type message \<noteq> ''response'' \<and> type message \<noteq> ''event'' \<longrightarrow>
      dispatchMessage message s =
        (Some (Error (''Unknown message type '' @ type message @ '' recevied'')), sendNextRequests s))
   \<and> snd (dispatchMessage message s) = sendNextRequests (snd (dispatchMessage_try message s))
   \<and> (pendingResponses (client_callbacks (snd (dispatchMessage message s))) \<noteq> 0
        \<or> queue (requestQueue (snd (dispatchMessage message s))) = [])"
  using sendNextRequests_done[of "snd (dispatchMessage_try message s)"]
  by (simp add: dispatchMessage_def dispatchMessage_try_def)

text \<open>C4, witness: a message of type \<open>ping\<close> arrives while request 2 is pending.\<close>

theorem unknown_message_type_witness:
  "type unknown_message \<noteq> ''response'' \<and> type unknown_message \<noteq> ''event''
   \<and> dispatchMessage unknown_message gated_client =
        (Some (Error ''Unknown message type ping recevied''), gated_client)
   \<and> pendingResponses (client_callbacks (snd (dispatchMessage unknown_message gated_client))) = 1"
proof -
  have 1: "type unknown_message \<noteq> ''response'' \<and> type unknown_message \<noteq> ''event''"
    by (simp add: unknown_message_def)
  have 2: "sendNextRequests gated_client = gated_client"
    by code_simp
  have 3: "pendingResponses (client_callbacks gated_client) = 1"
    by code_simp
  have 4: "type unknown_message = ''ping''"
    by (simp add: unknown_message_def)
  from unknown_message_type [of unknown_message gated_client] 1 2 3 4 show ?thesis by simp
qed

text \<open>
  C4, as the claim states it, fails: the dispatcher itself throws. For the message of
  type \<open>ping\<close> an exception leaves \<open>dispatchMessage\<close>, and the method has logged nothing.
\<close>

theorem unknown_message_throws:
  "fst (dispatchMessage unknown_message gated_client) = Some (Error ''Unknown message type ping recevied'')
   \<and> log_since gated_client (snd (dispatchMessage unknown_message gated_client)) = []"
  by code_simp

subsection \<open>C5: cancellation\<close>

text \<open>
  What \<open>tryCancelRequest\<close> does in general. In a state the client has reached, the
  cancellation of a sequence number that is still queued returns true and removes the
  request from the queue, and it settles no promise: the registry has no entry for a
  queued request. The cancellation of a sequence number with a live registry entry
  rejects that entry with \<open>Error('Cancelled Request N')\<close> and removes it.
\<close>

lemma splice_first_found:
  "fst (splice_first sq items) = (sq \<in> set (map (\<lambda>item. seq (request item)) items))"
  by (induction items) auto

lemma cancel_queued_settles_nothing:
  assumes "issued_once s" "sq \<in> set (queue_seqs s)"
  shows "fst (tryCancelRequest sq s)
    \<and> sq \<notin> set (queue_seqs (snd (tryCancelRequest sq s)))
    \<and> client_callbacks (snd (tryCancelRequest sq s)) = client_callbacks s
    \<and> settlements (snd (tryCancelRequest sq s)) = settlements s"
proof -
  from assms(1) have d: "distinct (map fst (callbacks (client_callbacks s)) @ queue_seqs s)"
    by (simp add: issued_once_def)
  with assms(2) have "sq \<notin> fst ` set (callbacks (client_callbacks s))"
    by auto
  then have absent: "map_of (callbacks (client_callbacks s)) sq = None"
    by (simp add: map_of_eq_None_iff)
  from assms(2) have found: "fst (splice_first sq (queue (requestQueue s)))"
    by (simp add: splice_first_found queue_seqs_def)
  from d have "distinct (queue_seqs s)" by simp
  then have gone: "sq \<notin> set (remove1 sq (queue_seqs s))"
    by simp
  have q: "queue_seqs (snd (tryCancelRequest sq s)) = remove1 sq (queue_seqs s)"
    by (simp add: queue_seqs_def tryCancelRequest_core RequestQueue_tryCancelPendingRequest_def splice_first_seqs)
  have cm: "client_callbacks (snd (tryCancelRequest sq s)) = client_callbacks s"
    using absent by (simp add: tryCancelRequest_core CallbackMap_delete_def)
  have "settlements (snd (tryCancelRequest sq s)) = settlements s"
    using absent found
    by (simp add: tryCancelRequest_def Let_def RequestQueue_tryCancelPendingRequest_def fetch_absent
        emit_def settlements_def)
  moreover have "fst (tryCancelRequest sq s)"
    using found by (simp add: tryCancelRequest_def Let_def RequestQueue_tryCancelPendingRequest_def)
  ultimately show ?thesis
    using gone q cm by simp
qed

lemma cancel_live_rejects:
  assumes "map_of (callbacks (client_callbacks s)) sq = Some callback"
  shows "last (effects (snd (tryCancelRequest sq s))) = Reject (e callback) (Error (''Cancelled Request '' @ string_of_nat sq))
    \<and> map_of (callbacks (client_callbacks (snd (tryCancelRequest sq s)))) sq = None"
  using assms
  by (simp add: tryCancelRequest_def Let_def emit_def CallbackMap_fetch_def CallbackMap_delete_def)

text \<open>
  C5 at the input where the code departs from it. Request 2 is in flight and request 3,
  result-bearing, is still queued with its callbacks (those of promise 3).
  \<open>tryCancelRequest(3)\<close> returns true and removes the request from the queue; its
  \<open>finally\<close> block looks sequence number 3 up in the Callback Registry, where a queued
  request has no entry, so the registry is unchanged, the only effect is the trace line,
  and no promise is rejected: the callbacks of promise 3 are gone with the queue item
  (the promises settled are those of the two requests of the session start).
\<close>

theorem cancel_queued_request_drops_callbacks:
  "map (\<lambda>item. (seq (request item), promise item, item_callbacks item)) (queue (requestQueue queued_client))
     = [(3, Some (Created 3), Some \<lparr>c = 3, e = 3, start = 2\<rparr>)]
   \<and> fst (tryCancelRequest 3 queued_client) = True
   \<and> queue (requestQueue (snd (tryCancelRequest 3 queued_client))) = []
   \<and> client_callbacks (snd (tryCancelRequest 3 queued_client)) = client_callbacks queued_client
   \<and> log_since queued_client (snd (tryCancelRequest 3 queued_client))
       = [LogTrace ''TypeScript Service: canceled request with sequence number 3'']
   \<and> settlements (snd (tryCancelRequest 3 queued_client)) = settlements queued_client
   \<and> settled_promises (snd (tryCancelRequest 3 queued_client)) = [0, 1]"
  by code_simp

subsection \<open>C6: a failed write\<close>

text \<open>
  What the continuations of \<open>sendRequest\<close> do once they run. When the promise that
  \<open>sendRequest\<close> attached the write to is rejected, or the
  write throws, the rejection handler takes the entry of the request's sequence number
  from the Callback Registry and rejects it with that error: afterwards the sequence
  number has no entry, and if it had one, its \<open>e\<close> is called with the error and nothing
  else is done. In particular, for a request with callbacks the handler run after
  \<open>sendRequest\<close> rejects exactly these callbacks and restores the pending count; and when
  no service is available (\<open>servicePromise\<close> is null and \<open>lastError\<close> is set) the reaction
  attached by \<open>sendRequest\<close> can only settle this way, with \<open>lastError\<close>.
\<close>

lemma write_failure_rejects:
  "map_of (callbacks (client_callbacks (sendRequest_onRejected err serverRequest s))) (seq serverRequest) = None
   \<and> sendRequest_onFulfilled (Some err) serverRequest s = sendRequest_onRejected err serverRequest s
   \<and> (map_of (callbacks (client_callbacks s)) (seq serverRequest) = Some callback \<longrightarrow>
        log_since s (sendRequest_onRejected err serverRequest s) = [Reject (e callback) err])
   \<and> (item_callbacks item = Some callback \<longrightarrow>
        log_since (sendRequest item s) (sendRequest_onRejected err (request item) (sendRequest item s))
          = [Reject (e callback) err]
        \<and> pendingResponses (client_callbacks (sendRequest_onRejected err (request item) (sendRequest item s)))
          = pendingResponses (client_callbacks s))
   \<and> (item_callbacks item = Some callback \<and> servicePromise s = None \<and> lastError s = Some err \<longrightarrow>
        log_since (sendRequest item s) (settle (length (reactions s)) out (sendRequest item s))
          = [Reject (e callback) err]
        \<and> map_of (callbacks (client_callbacks (settle (length (reactions s)) out (sendRequest item s))))
            (seq (request item)) = None)"
proof -
  have a: "item_callbacks item = Some callback \<Longrightarrow>
        log_since (sendRequest item s) (sendRequest_onRejected err (request item) (sendRequest item s))
          = [Reject (e callback) err]
        \<and> pendingResponses (client_callbacks (sendRequest_onRejected err (request item) (sendRequest item s)))
          = pendingResponses (client_callbacks s)"
    using sendRequest_registers[of item callback s]
      onRejected_live[of "sendRequest item s" "request item" callback err]
    by simp
  have b: "item_callbacks item = Some callback \<Longrightarrow> servicePromise s = None \<Longrightarrow> lastError s = Some err \<Longrightarrow>
        log_since (sendRequest item s) (settle (length (reactions s)) out (sendRequest item s))
          = [Reject (e callback) err]
        \<and> map_of (callbacks (client_callbacks (settle (length (reactions s)) out (sendRequest item s))))
            (seq (request item)) = None"
    using sendRequest_registers[of item callback s] sendRequest_unavailable[of s err item]
      settle_last_rejected[of "sendRequest item s" "reactions s" err "request item" callback out]
    by simp
  show ?thesis
    using a b onRejected_absent[of err serverRequest s] onRejected_live[of s serverRequest callback err]
    by (simp add: sendRequest_onFulfilled_def)
qed

text \<open>
  On a run: the write of the pending request 2 fails with \<open>EPIPE\<close> and its promise 2 is
  rejected with that error. A request with callbacks is sent after the worker has
  reported an error: its promise 3 is rejected with that error, whatever the outcome
  offered.
\<close>

lemma write_failure_rejects_on_a_run:
  "map_of (callbacks (client_callbacks gated_client)) (seq (snd (hd (reactions gated_client))))
     = Some \<lparr>c = 2, e = 2, start = 1\<rparr>
   \<and> log_since gated_client
        (sendRequest_onRejected (Error ''write EPIPE'') (snd (hd (reactions gated_client))) gated_client)
       = [Reject 2 (Error ''write EPIPE'')]
   \<and> item_callbacks pending_item = Some \<lparr>c = 3, e = 3, start = 9\<rparr>
   \<and> servicePromise failed_client = None \<and> lastError failed_client = Some (Error ''spawn ENOENT'')
   \<and> log_since (sendRequest pending_item failed_client)
        (settle (length (reactions failed_client)) (Fulfilled None) (sendRequest pending_item failed_client))
       = [Reject 3 (Error ''spawn ENOENT'')]"
proof -
  have live: "map_of (callbacks (client_callbacks gated_client)) (seq (snd (hd (reactions gated_client))))
      = Some \<lparr>c = 2, e = 2, start = 1\<rparr>"
    by code_simp
  have item: "item_callbacks pending_item = Some \<lparr>c = 3, e = 3, start = 9\<rparr>"
    by (simp add: pending_item_def)
  have down: "servicePromise failed_client = None" "lastError failed_client = Some (Error ''spawn ENOENT'')"
    by code_simp+
  have 1: "log_since gated_client
        (sendRequest_onRejected (Error ''write EPIPE'') (snd (hd (reactions gated_client))) gated_client)
       = [Reject (e \<lparr>c = 2, e = 2, start = 1\<rparr>) (Error ''write EPIPE'')]"
    using write_failure_rejects [of "Error ''write EPIPE''" "snd (hd (reactions gated_client))" gated_client
        "\<lparr>c = 2, e = 2, start = 1\<rparr>"] live
    by blast
  have 2: "log_since (sendRequest pending_item failed_client)
        (settle (length (reactions failed_client)) (Fulfilled None) (sendRequest pending_item failed_client))
       = [Reject (e \<lparr>c = 3, e = 3, start = 9\<rparr>) (Error ''spawn ENOENT'')]"
    using write_failure_rejects [of "Error ''spawn ENOENT''" _ failed_client
        "\<lparr>c = 3, e = 3, start = 9\<rparr>" pending_item "Fulfilled None"] item down
    by blast
  from live item down 1 2 show ?thesis by simp
qed

text \<open>
  C6 at the input where the code departs from it. The fork of the worker fails: its
  callback stores the error in \<open>lastError\<close> and returns, leaving \<open>servicePromise\<close> set to
  a promise that is neither resolved nor rejected. A result-bearing request executed
  afterwards is dispatched and registered, and its write and its rejection handler are
  attached to that promise: \<open>service()\<close> returns it and never reaches its test of
  \<open>lastError\<close>. Neither continuation will run, so the callbacks of promise 0 stay in the
  registry with a pending count of 1, nothing is settled, and the next request waits in
  the queue behind it.
\<close>

theorem failed_fork_leaves_call_pending:
  "servicePromise failed_fork_client = Some 0
   \<and> lastError failed_fork_client = Some (Error ''spawn ENOENT'')
   \<and> fst (service failed_fork_client) = ServicePromise 0
   \<and> callbacks (client_callbacks failed_fork_client) = [(0, \<lparr>c = 0, e = 0, start = 1\<rparr>)]
   \<and> pendingResponses (client_callbacks failed_fork_client) = 1
   \<and> reactions failed_fork_client
       = [(ServicePromise 0, \<lparr>seq = 0, type = ''request'', command = ''quickinfo'', arguments = ''{}''\<rparr>)]
   \<and> map (\<lambda>item. (seq (request item), promise item)) (queue (requestQueue failed_fork_client))
       = [(1, Some (Created 1))]
   \<and> settled_promises failed_fork_client = []"
  by code_simp

subsection \<open>C7: sequence numbers\<close>

text \<open>
  C7. However calls of \<open>createRequest\<close> are interleaved with \<open>push\<close>, \<open>shift\<close> and
  \<open>tryCancelPendingRequest\<close> on a fresh RequestQueue, the sequence numbers issued are
  \<open>0, 1, 2, ...\<close> in this order; from any queue they are strictly increasing and pairwise
  distinct. A call returns the counter and changes nothing of the queue but the counter,
  which it increments. The start of a new session installs a fresh RequestQueue, whose
  counter is 0.
\<close>

theorem createRequest_sequence:
  "issued xs new_RequestQueue = [0 ..< creations xs]
   \<and> sorted_wrt (<) (issued xs q) \<and> distinct (issued xs q)
   \<and> seq (fst (RequestQueue_createRequest cmd args q)) = sequenceNumber q
   \<and> snd (RequestQueue_createRequest cmd args q) = q\<lparr>sequenceNumber := sequenceNumber q + 1\<rparr>
   \<and> requestQueue (startService_executor p missing version pipe logFile s) = new_RequestQueue
   \<and> sequenceNumber new_RequestQueue = 0"
  by (simp add: issued_from new_RequestQueue_def RequestQueue_createRequest_def startService_executor_def Let_def)

subsection \<open>C8: the pending count\<close>

text \<open>
  C8. In every state the client reaches, by whatever interleaving of its handlers, the
  pending count equals the number of live entries of the Callback Registry (and so is
  not negative): the only caller of \<open>add\<close> is \<open>sendRequest\<close>, with a sequence number that
  the RequestQueue issued once. For the class taken alone, after every sequence of
  \<open>add\<close>, \<open>fetch\<close> and \<open>destroy\<close> calls on a new CallbackMap the count is non-negative
  and not below the number of live entries, and it equals that number when no \<open>add\<close> of
  the sequence names a sequence number that is live at that moment. A \<open>fetch\<close> of an
  absent sequence number returns nothing and leaves the map and its count as they are.
\<close>

theorem pending_count_matches_live_entries:
  "0 \<le> pendingResponses (CallbackMap_run xs new_CallbackMap)
   \<and> int (live_entries (CallbackMap_run xs new_CallbackMap)) \<le> pendingResponses (CallbackMap_run xs new_CallbackMap)
   \<and> (adds_fresh xs new_CallbackMap \<longrightarrow>
        pendingResponses (CallbackMap_run xs new_CallbackMap) = int (live_entries (CallbackMap_run xs new_CallbackMap)))
   \<and> pendingResponses (client_callbacks (run evs (new_TypeScriptServiceClient t)))
       = int (live_entries (client_callbacks (run evs (new_TypeScriptServiceClient t))))
   \<and> (map_of (callbacks cm) sq = None \<longrightarrow>
        fst (CallbackMap_fetch sq cm) = None \<and> snd (CallbackMap_fetch sq cm) = cm)"
proof -
  have ge: "int (live_entries (CallbackMap_run xs new_CallbackMap)) \<le> pendingResponses (CallbackMap_run xs new_CallbackMap)"
    by (rule count_run_ge) (simp add: new_CallbackMap_def live_entries_def)
  have eq: "adds_fresh xs new_CallbackMap \<Longrightarrow>
        pendingResponses (CallbackMap_run xs new_CallbackMap) = int (live_entries (CallbackMap_run xs new_CallbackMap))"
    by (rule count_run_eq) (simp_all add: new_CallbackMap_def live_entries_def)
  from ge have nonneg: "0 \<le> pendingResponses (CallbackMap_run xs new_CallbackMap)" by linarith
  let ?al = "callbacks (client_callbacks (run evs (new_TypeScriptServiceClient t)))"
  have inv: "issued_once (run evs (new_TypeScriptServiceClient t))"
    by (rule issued_once_reachable)
  then have "distinct (map fst ?al)"
    by (simp add: issued_once_def)
  then have "card (set (map fst ?al)) = length (map fst ?al)"
    by (rule distinct_card)
  then have "live_entries (client_callbacks (run evs (new_TypeScriptServiceClient t))) = length ?al"
    by (simp add: live_entries_def)
  with inv have client: "pendingResponses (client_callbacks (run evs (new_TypeScriptServiceClient t)))
       = int (live_entries (client_callbacks (run evs (new_TypeScriptServiceClient t))))"
    by (simp add: issued_once_def)
  from nonneg ge eq client show ?thesis
    by (simp add: fetch_absent)
qed

text \<open>C8, witness: a run of the registry in which sequence number 0 is added again after
  it was fetched, and a \<open>fetch\<close> of the absent sequence number 7.\<close>

theorem pending_count_matches_live_entries_witness:
  "adds_fresh registry_ops new_CallbackMap
   \<and> pendingResponses (CallbackMap_run registry_ops new_CallbackMap) = 1
   \<and> live_entries (CallbackMap_run registry_ops new_CallbackMap) = 1
   \<and> map_of (callbacks (CallbackMap_run registry_ops new_CallbackMap)) 7 = None
   \<and> snd (CallbackMap_fetch 7 (CallbackMap_run registry_ops new_CallbackMap)) = CallbackMap_run registry_ops new_CallbackMap"
proof -
  have fresh: "adds_fresh registry_ops new_CallbackMap"
    by (simp add: registry_ops_def CallbackMap_add_def new_CallbackMap_def CallbackMap_fetch_def
        CallbackMap_delete_def CallbackMap_destroy_def)
  have live: "live_entries (CallbackMap_run registry_ops new_CallbackMap) = 1"
    by (simp add: registry_ops_def CallbackMap_add_def new_CallbackMap_def CallbackMap_fetch_def
        CallbackMap_delete_def CallbackMap_destroy_def live_entries_def)
  have absent: "map_of (callbacks (CallbackMap_run registry_ops new_CallbackMap)) 7 = None"
    by (simp add: registry_ops_def CallbackMap_add_def new_CallbackMap_def CallbackMap_fetch_def
        CallbackMap_delete_def CallbackMap_destroy_def)
  from fresh live absent
    pending_count_matches_live_entries [of registry_ops _ _ "CallbackMap_run registry_ops new_CallbackMap" 7]
  show ?thesis by simp
qed

text \<open>
  Why the class taken alone needs the condition on \<open>add\<close>: it increments the count also
  when the sequence number is already live and \<open>Map.set\<close> only replaces the entry. The
  client never makes such a call.
\<close>

lemma add_live_key_counts_twice:
  "pendingResponses (CallbackMap_run [Add 0 callback0, Add 0 callback0] new_CallbackMap) = 2
   \<and> live_entries (CallbackMap_run [Add 0 callback0, Add 0 callback0] new_CallbackMap) = 1"
  by (simp add: CallbackMap_add_def new_CallbackMap_def live_entries_def)

subsection \<open>C9: a response nobody waits for\<close>

text \<open>
  C9. For a response whose \<open>request_seq\<close> has no entry in the Callback Registry,
  \<open>dispatchMessage\<close> throws nothing and does nothing for the message itself: its result is
  that of the dispatch loop run on the unchanged state, and no promise is resolved or
  rejected by the call.
\<close>

theorem stale_response_discarded:
  "type message = ''response'' \<Longrightarrow>
   map_of (callbacks (client_callbacks s)) (request_seq message) = None \<Longrightarrow>
   dispatchMessage message s = (None, sendNextRequests s)
   \<and> settlements (snd (dispatchMessage message s)) = settlements s"
  by (simp add: dispatchMessage_def dispatchMessage_try_def fetch_absent)

text \<open>C9, witness: a response to sequence number 9 arrives while only request 2 is
  pending; the client is left exactly as it was.\<close>

theorem stale_response_discarded_witness:
  "type stale_response = ''response''
   \<and> map_of (callbacks (client_callbacks gated_client)) (request_seq stale_response) = None
   \<and> dispatchMessage stale_response gated_client = (None, gated_client)
   \<and> settlements (snd (dispatchMessage stale_response gated_client)) = settlements gated_client"
proof -
  have 1: "type stale_response = ''response''"
    by (simp add: stale_response_def response_to_def)
  have 2: "map_of (callbacks (client_callbacks gated_client)) (request_seq stale_response) = None"
    by code_simp
  have 3: "sendNextRequests gated_client = gated_client"
    by code_simp
  from stale_response_discarded [OF 1 2] 1 2 3 show ?thesis by simp
qed

subsection \<open>C10: fire-and-forget requests\<close>

text \<open>
  C10. \<open>execute\<close> with \<open>false\<close> as its third argument returns \<open>Promise.resolve(null)\<close>.
  The request it creates carries the sequence number the RequestQueue's counter had, and
  after the call it is either queued or dispatched. In any state the client has reached,
  after such a call no entry is registered under that sequence number, and none is
  registered under it by any later events of the same session.
\<close>

theorem fire_and_forget_never_registered:
  "fst (execute cmd args (Boolean False) now s) = Resolved_null
   \<and> map snd (reactions (snd (execute cmd args (Boolean False) now s)))
       @ map request (queue (requestQueue (snd (execute cmd args (Boolean False) now s))))
     = map snd (reactions s) @ map request (queue (requestQueue s))
       @ [\<lparr>seq = sequenceNumber (requestQueue s), type = ''request'', command = cmd, arguments = args\<rparr>]
   \<and> (in_session evs \<longrightarrow>
        map_of (callbacks (client_callbacks
                 (run evs (snd (execute cmd args (Boolean False) now (run history (new_TypeScriptServiceClient t)))))))
          (sequenceNumber (requestQueue (run history (new_TypeScriptServiceClient t)))) = None)"
proof -
  have 1: "fst (execute cmd args (Boolean False) now s) = Resolved_null"
    by (simp add: execute_def execute_enqueue_def Let_def)
  have 2: "map snd (reactions (snd (execute cmd args (Boolean False) now s)))
       @ map request (queue (requestQueue (snd (execute cmd args (Boolean False) now s))))
     = map snd (reactions s) @ map request (queue (requestQueue s))
       @ [\<lparr>seq = sequenceNumber (requestQueue s), type = ''request'', command = cmd, arguments = args\<rparr>]"
    by (simp add: execute_def sendNextRequests_conserves execute_enqueue_core)
  have 3: "map_of (callbacks (client_callbacks
                 (run evs (snd (execute cmd args (Boolean False) now (run history (new_TypeScriptServiceClient t)))))))
          (sequenceNumber (requestQueue (run history (new_TypeScriptServiceClient t)))) = None"
    if "in_session evs"
  proof -
    let ?s = "run history (new_TypeScriptServiceClient t)"
    have "issued_once ?s" by (rule issued_once_reachable)
    then have "never_registered (sequenceNumber (requestQueue ?s)) (snd (execute cmd args (Boolean False) now ?s))"
      by (rule never_registered_fire_and_forget)
    then have "never_registered (sequenceNumber (requestQueue ?s))
        (run evs (snd (execute cmd args (Boolean False) now ?s)))"
      using that by (rule never_registered_run)
    then show ?thesis by (simp add: never_registered_def)
  qed
  from 1 2 3 show ?thesis by blast
qed

text \<open>
  C10, witness. After the requests 0 to 2 the fire-and-forget request gets sequence
  number 3. Then a result-bearing request is executed, the response to request 2 arrives
  and two writes are made: the registry holds an entry for sequence number 4 and none
  for 3.
\<close>

theorem fire_and_forget_never_registered_witness:
  "in_session later_events
   \<and> sequenceNumber (requestQueue (run history_events (new_TypeScriptServiceClient 0))) = 3
   \<and> map_of (callbacks (client_callbacks
        (run later_events (snd (execute ''change'' ''{}'' (Boolean False) 2
            (run history_events (new_TypeScriptServiceClient 0))))))) 3 = None
   \<and> map fst (callbacks (client_callbacks
        (run later_events (snd (execute ''change'' ''{}'' (Boolean False) 2
            (run history_events (new_TypeScriptServiceClient 0))))))) = [4]"
proof -
  have session: "in_session later_events"
    by (simp add: in_session_def later_events_def)
  have n: "sequenceNumber (requestQueue (run history_events (new_TypeScriptServiceClient 0))) = 3"
    by code_simp
  have "map_of (callbacks (client_callbacks
        (run later_events (snd (execute ''change'' ''{}'' (Boolean False) 2
            (run history_events (new_TypeScriptServiceClient 0)))))))
      (sequenceNumber (requestQueue (run history_events (new_TypeScriptServiceClient 0)))) = None"
    using fire_and_forget_never_registered [of "''change''" "''{}''" 2 _ later_events history_events 0] session
    by blast
  then have absent: "map_of (callbacks (client_callbacks
        (run later_events (snd (execute ''change'' ''{}'' (Boolean False) 2
            (run history_events (new_TypeScriptServiceClient 0))))))) 3 = None"
    unfolding n .
  have keys: "map fst (callbacks (client_callbacks
        (run later_events (snd (execute ''change'' ''{}'' (Boolean False) 2
            (run history_events (new_TypeScriptServiceClient 0))))))) = [4]"
    by code_simp
  from session n absent keys show ?thesis by blast
qed

end
